theory Spec2Isabelle
  imports Main
begin

section \<open>The wire format (package protowire, as used by internal/agent/pb/codec.go)\<close>

text \<open>
  A Go byte is a \<^typ>\<open>char\<close> (eight bits), so a byte slice and a Go string are both a
  \<^typ>\<open>string\<close>; the conversions \<^verbatim>\<open>string(val)\<close> and \<^verbatim>\<open>[]byte(s)\<close> are the identity.
  The codec calls the protobuf module's package \<^verbatim>\<open>protowire\<close>, which is not part of the
  repository; its functions are written here after that package, with its negative
  error codes.  A Go \<^verbatim>\<open>int\<close> length is an \<^typ>\<open>int\<close>, a \<^verbatim>\<open>uint64\<close> varint value a \<^typ>\<open>nat\<close>
  (every value read from at most ten bytes is below \<open>2 ^ 64\<close>).
\<close>

type_synonym bytes = string

definition errCodeTruncated :: int where "errCodeTruncated = - 1"
definition errCodeFieldNumber :: int where "errCodeFieldNumber = - 2"
definition errCodeOverflow :: int where "errCodeOverflow = - 3"
definition errCodeReserved :: int where "errCodeReserved = - 4"
definition errCodeEndGroup :: int where "errCodeEndGroup = - 5"
definition errCodeRecursionDepth :: int where "errCodeRecursionDepth = - 6"

definition VarintType :: int where "VarintType = 0"
definition Fixed64Type :: int where "Fixed64Type = 1"
definition BytesType :: int where "BytesType = 2"
definition StartGroupType :: int where "StartGroupType = 3"
definition EndGroupType :: int where "EndGroupType = 4"
definition Fixed32Type :: int where "Fixed32Type = 5"

definition DefaultRecursionLimit :: int where "DefaultRecursionLimit = 10000"

text \<open>
  \<^verbatim>\<open>AppendVarint\<close>: seven bits per byte, low group first, the top bit set on every byte
  but the last.  The package unrolls this loop into a switch on the size of \<open>v\<close>.
\<close>

function varint :: "nat \<Rightarrow> bytes" where
  "varint v = (if v < 128 then [char_of v] else char_of (v mod 128 + 128) # varint (v div 128))"
  by pat_completeness auto
termination
  by (relation "measure (\<lambda>v. v)") auto

declare varint.simps [simp del]

definition AppendVarint :: "bytes \<Rightarrow> nat \<Rightarrow> bytes" where
  "AppendVarint b v = b @ varint v"

text \<open>
  \<^verbatim>\<open>ConsumeVarint\<close> reads at most ten bytes; \<open>i\<close> is the index of the byte at the head of
  the list.  The tenth byte (index 9) must be 0 or 1.  The result is the value and the
  number of bytes read, or a negative error code.
\<close>

fun consumeVarintFrom :: "nat \<Rightarrow> bytes \<Rightarrow> nat \<times> int" where
  "consumeVarintFrom i [] = (0, errCodeTruncated)"
| "consumeVarintFrom i (c # b) =
     (let y = (of_char c :: nat) in
      if i = 9 then (if y < 2 then (y, 1) else (0, errCodeOverflow))
      else if y < 128 then (y, 1)
      else (case consumeVarintFrom (Suc i) b of
              (v, n) \<Rightarrow> if n < 0 then (0, n) else (y - 128 + 128 * v, n + 1)))"

definition ConsumeVarint :: "bytes \<Rightarrow> nat \<times> int" where
  "ConsumeVarint b = consumeVarintFrom 0 b"

text \<open>\<^verbatim>\<open>EncodeTag\<close> is \<^verbatim>\<open>uint64(num)<<3 | uint64(typ&7)\<close>; \<^verbatim>\<open>DecodeTag\<close> rejects a field
  number above \<^verbatim>\<open>math.MaxInt32\<close> with the number \<open>-1\<close>.\<close>

definition EncodeTag :: "int \<Rightarrow> int \<Rightarrow> nat" where
  "EncodeTag num ty = nat num * 8 + nat (ty mod 8)"

definition DecodeTag :: "nat \<Rightarrow> int \<times> int" where
  "DecodeTag x = (if x div 8 > 2147483647 then (- 1, 0) else (int (x div 8), int (x mod 8)))"

definition AppendTag :: "bytes \<Rightarrow> int \<Rightarrow> int \<Rightarrow> bytes" where
  "AppendTag b num ty = AppendVarint b (EncodeTag num ty)"

definition ConsumeTag :: "bytes \<Rightarrow> int \<times> int \<times> int" where
  "ConsumeTag b =
     (case ConsumeVarint b of
        (v, n) \<Rightarrow>
          if n < 0 then (0, 0, n)
          else (case DecodeTag v of
                  (num, ty) \<Rightarrow> if num < 1 then (0, 0, errCodeFieldNumber) else (num, ty, n)))"

definition AppendBytes :: "bytes \<Rightarrow> bytes \<Rightarrow> bytes" where
  "AppendBytes b v = AppendVarint b (length v) @ v"

definition ConsumeBytes :: "bytes \<Rightarrow> bytes \<times> int" where
  "ConsumeBytes b =
     (case ConsumeVarint b of
        (m, n) \<Rightarrow>
          if n < 0 then ([], n)
          else if m > length (drop (nat n) b) then ([], errCodeTruncated)
          else (take m (drop (nat n) b), n + int m))"

text \<open>Of the fixed-width readers only the length is used by the codec.\<close>

definition ConsumeFixed32 :: "bytes \<Rightarrow> int" where
  "ConsumeFixed32 b = (if length b < 4 then errCodeTruncated else 4)"

definition ConsumeFixed64 :: "bytes \<Rightarrow> int" where
  "ConsumeFixed64 b = (if length b < 8 then errCodeTruncated else 8)"

lemma consumeVarintFrom_bounds:
  "consumeVarintFrom i b = (v, n) \<Longrightarrow> 0 \<le> n \<Longrightarrow> 1 \<le> n \<and> n \<le> int (length b)"
proof (induction i b arbitrary: v n rule: consumeVarintFrom.induct)
  case (1 i)
  then show ?case by (simp add: errCodeTruncated_def)
next
  case (2 i c b)
  show ?case
  proof (cases "i = 9 \<or> (of_char c :: nat) < 128")
    case True
    with "2.prems" show ?thesis
      by (auto simp: Let_def errCodeOverflow_def split: if_splits)
  next
    case False
    obtain v' n' where rec: "consumeVarintFrom (Suc i) b = (v', n')"
      by (cases "consumeVarintFrom (Suc i) b")
    from False "2.prems" rec have n: "\<not> n' < 0" "n = n' + 1"
      by (auto simp: Let_def split: if_splits)
    from False have "1 \<le> n' \<and> n' \<le> int (length b)"
      using "2.IH" [OF refl _ _ rec] n by simp
    with n show ?thesis by simp
  qed
qed

lemma ConsumeVarint_bounds:
  "ConsumeVarint b = (v, n) \<Longrightarrow> 0 \<le> n \<Longrightarrow> 1 \<le> n \<and> n \<le> int (length b)"
  unfolding ConsumeVarint_def by (rule consumeVarintFrom_bounds)

lemma ConsumeTag_bounds:
  "ConsumeTag b = (num, ty, n) \<Longrightarrow> 0 \<le> n \<Longrightarrow> 1 \<le> n \<and> n \<le> int (length b)"
  unfolding ConsumeTag_def
  by (auto simp: errCodeFieldNumber_def split: prod.splits if_splits dest: ConsumeVarint_bounds)


text \<open>
  \<^verbatim>\<open>ConsumeFieldValue\<close> returns the length of a field's value.  A group is read field by
  field up to its end marker (\<open>consumeGroup\<close> is that loop, \<open>n0\<close> the length of the slice
  at the start of the group); groups nest at most \<^const>\<open>DefaultRecursionLimit\<close> deep.
\<close>

function consumeFieldValueD :: "int \<Rightarrow> int \<Rightarrow> bytes \<Rightarrow> int \<Rightarrow> int"
  and consumeGroup :: "int \<Rightarrow> nat \<Rightarrow> bytes \<Rightarrow> int \<Rightarrow> int" where
  "consumeFieldValueD num ty b depth =
     (if ty = VarintType then snd (ConsumeVarint b)
      else if ty = Fixed32Type then ConsumeFixed32 b
      else if ty = Fixed64Type then ConsumeFixed64 b
      else if ty = BytesType then snd (ConsumeBytes b)
      else if ty = StartGroupType then
        (if depth < 0 then errCodeRecursionDepth else consumeGroup num (length b) b depth)
      else if ty = EndGroupType then errCodeEndGroup
      else errCodeReserved)"
| "consumeGroup num n0 b depth =
     (case ConsumeTag b of
        (num2, ty2, n) \<Rightarrow>
          if n < 0 then n
          else if ty2 = EndGroupType then
            (if num \<noteq> num2 then errCodeEndGroup else int n0 - int (length (drop (nat n) b)))
          else (case consumeFieldValueD num2 ty2 (drop (nat n) b) (depth - 1) of
                  n' \<Rightarrow> if n' < 0 then n' else consumeGroup num n0 (drop (nat n') (drop (nat n) b)) depth))"
  by pat_completeness auto
termination
proof (relation "measure (\<lambda>x. case x of Inl (num, ty, b, depth) \<Rightarrow> 2 * length b + 1
                                       | Inr (num, n0, b, depth) \<Rightarrow> 2 * length b)")
qed (auto dest!: ConsumeTag_bounds [OF sym])

declare consumeFieldValueD.simps [simp del] consumeGroup.simps [simp del]

definition ConsumeFieldValue :: "int \<Rightarrow> int \<Rightarrow> bytes \<Rightarrow> int" where
  "ConsumeFieldValue num ty b = consumeFieldValueD num ty b DefaultRecursionLimit"


section \<open>Messages and their codec (internal/agent/pb/types.go, codec.go)\<close>

text \<open>
  The three message structs.  The fields of \<open>TaskEvent\<close> and \<open>HealthResponse\<close> carry a
  prefix, since a field name is a constant of the theory and \<open>TaskId\<close> and \<open>Status\<close>
  are taken.  A Go map is a partial function; a nil map and an empty map both read as
  \<^term>\<open>Map.empty\<close> (no read in the repository tells them apart, and the decoder
  allocates the map before its first write), so the allocation in the decoder leaves the
  model's value as it is.
\<close>

record TaskRequest =
  TaskId :: string
  Skill :: string
  Input :: string
  Metadata :: "string \<rightharpoonup> string"

record TaskEvent =
  ev_TaskId :: string
  ev_Type :: string
  ev_Payload :: string

record HealthResponse =
  hr_Status :: string
  hr_AgentName :: string

text \<open>The zero values a decoder is handed (\<^verbatim>\<open>&TaskEvent{}\<close>, \<^verbatim>\<open>&HealthResponse{}\<close>).\<close>

definition zeroTaskRequest :: TaskRequest where
  "zeroTaskRequest = \<lparr>TaskId = [], Skill = [], Input = [], Metadata = Map.empty\<rparr>"

definition zeroTaskEvent :: TaskEvent where
  "zeroTaskEvent = \<lparr>ev_TaskId = [], ev_Type = [], ev_Payload = []\<rparr>"

definition zeroHealthResponse :: HealthResponse where
  "zeroHealthResponse = \<lparr>hr_Status = [], hr_AgentName = []\<rparr>"

subsection \<open>Encoding\<close>

definition appendString :: "bytes \<Rightarrow> int \<Rightarrow> string \<Rightarrow> bytes" where
  "appendString b fieldNum s =
     (if s = [] then b else AppendBytes (AppendTag b fieldNum BytesType) s)"

definition appendBytes :: "bytes \<Rightarrow> int \<Rightarrow> bytes \<Rightarrow> bytes" where
  "appendBytes b fieldNum data = AppendBytes (AppendTag b fieldNum BytesType) data"

text \<open>
  \<^verbatim>\<open>for k, v := range m.Metadata\<close> visits the keys in an order the runtime chooses;
  \<open>ks\<close> is that order (each key of the map once).
\<close>

definition marshalEntry :: "string \<Rightarrow> string \<Rightarrow> bytes" where
  "marshalEntry k v = appendString (appendString [] 1 k) 2 v"

fun marshalMetadata :: "bytes \<Rightarrow> (string \<rightharpoonup> string) \<Rightarrow> string list \<Rightarrow> bytes" where
  "marshalMetadata b md [] = b"
| "marshalMetadata b md (k # ks) =
     (case md k of
        None \<Rightarrow> marshalMetadata b md ks
      | Some v \<Rightarrow> marshalMetadata (appendBytes b 4 (marshalEntry k v)) md ks)"

definition marshalTaskRequest :: "string list \<Rightarrow> TaskRequest \<Rightarrow> bytes" where
  "marshalTaskRequest ks m =
     marshalMetadata
       (appendString (appendString (appendString [] 1 (TaskId m)) 2 (Skill m)) 3 (Input m))
       (Metadata m) ks"

definition marshalTaskEvent :: "TaskEvent \<Rightarrow> bytes" where
  "marshalTaskEvent m =
     appendString (appendString (appendString [] 1 (ev_TaskId m)) 2 (ev_Type m)) 3 (ev_Payload m)"

definition marshalHealthResponse :: "HealthResponse \<Rightarrow> bytes" where
  "marshalHealthResponse m = appendString (appendString [] 1 (hr_Status m)) 2 (hr_AgentName m)"

subsection \<open>Decoding\<close>

text \<open>
  A decoder returns the filled message or one of the errors of codec.go.  \<open>Panic\<close> is
  the run-time panic of a slice expression \<^verbatim>\<open>data[n:]\<close> whose bound is out of range:
  \<open>slice_from\<close> is that expression.
\<close>

datatype decode_error =
    InvalidTag
  | InvalidBytes int
  | InvalidField int
  | InvalidMapEntryTag
  | InvalidMapEntryField
  | InvalidMapEntryBytes

datatype 'a decoding = Decoded 'a | DecodeError decode_error | Panic

definition slice_from :: "bytes \<Rightarrow> int \<Rightarrow> bytes option" where
  "slice_from data n = (if 0 \<le> n \<and> n \<le> int (length data) then Some (drop (nat n) data) else None)"

lemma slice_from_length:
  "slice_from data n = Some data' \<Longrightarrow> length data' = length data - nat n"
  by (auto simp: slice_from_def split: if_splits)

lemma ConsumeTag_slice_shorter:
  "ConsumeTag data = (num, ty, n) \<Longrightarrow> \<not> n < 0 \<Longrightarrow> slice_from data n = Some data1
     \<Longrightarrow> length data1 < length data"
  using ConsumeTag_bounds [of data num ty n] by (auto dest!: slice_from_length)

lemma field_slice_shorter:
  "(num, ty, n) = ConsumeTag data \<Longrightarrow> \<not> n < 0 \<Longrightarrow> slice_from data n = Some data1
     \<Longrightarrow> slice_from data1 k = Some data2 \<Longrightarrow> length data2 < length data"
  using ConsumeTag_slice_shorter [of data num ty n data1] slice_from_length [of data1 k data2]
  by simp

function mapEntryLoop :: "bytes \<Rightarrow> string \<Rightarrow> string \<Rightarrow> (string \<times> string) decoding" where
  "mapEntryLoop data k v =
     (if length data > 0 then
        (case ConsumeTag data of
           (num, ty, n) \<Rightarrow>
             if n < 0 then DecodeError InvalidMapEntryTag
             else (case slice_from data n of
                     None \<Rightarrow> Panic
                   | Some data1 \<Rightarrow>
                       if ty \<noteq> BytesType then
                         (case ConsumeFieldValue num ty data1 of
                            n1 \<Rightarrow>
                              if n1 < 0 then DecodeError InvalidMapEntryField
                              else (case slice_from data1 n1 of
                                      None \<Rightarrow> Panic
                                    | Some data2 \<Rightarrow> mapEntryLoop data2 k v))
                       else
                         (case ConsumeBytes data1 of
                            (val, n2) \<Rightarrow>
                              if n2 < 0 then DecodeError InvalidMapEntryBytes
                              else (case slice_from data1 n2 of
                                      None \<Rightarrow> Panic
                                    | Some data2 \<Rightarrow>
                                        if num = 1 then mapEntryLoop data2 val v
                                        else if num = 2 then mapEntryLoop data2 k val
                                        else mapEntryLoop data2 k v))))
      else Decoded (k, v))"
  by pat_completeness auto
termination
proof (relation "measure (\<lambda>(data, k, v). length data)")
qed (auto elim: field_slice_shorter)

declare mapEntryLoop.simps [simp del]

definition unmarshalMapEntry :: "bytes \<Rightarrow> (string \<times> string) decoding" where
  "unmarshalMapEntry data = mapEntryLoop data [] []"

function unmarshalTaskRequest :: "bytes \<Rightarrow> TaskRequest \<Rightarrow> TaskRequest decoding" where
  "unmarshalTaskRequest data m =
     (if length data > 0 then
        (case ConsumeTag data of
           (num, ty, n) \<Rightarrow>
             if n < 0 then DecodeError InvalidTag
             else (case slice_from data n of
                     None \<Rightarrow> Panic
                   | Some data1 \<Rightarrow>
                       if ty = BytesType then
                         (case ConsumeBytes data1 of
                            (val, n2) \<Rightarrow>
                              if n2 < 0 then DecodeError (InvalidBytes num)
                              else (case slice_from data1 n2 of
                                      None \<Rightarrow> Panic
                                    | Some data2 \<Rightarrow>
                                        if num = 1 then unmarshalTaskRequest data2 (m\<lparr>TaskId := val\<rparr>)
                                        else if num = 2 then unmarshalTaskRequest data2 (m\<lparr>Skill := val\<rparr>)
                                        else if num = 3 then unmarshalTaskRequest data2 (m\<lparr>Input := val\<rparr>)
                                        else if num = 4 then
                                          (case unmarshalMapEntry val of
                                             Decoded (k, v) \<Rightarrow>
                                               unmarshalTaskRequest data2
                                                 (m\<lparr>Metadata := (Metadata m)(k \<mapsto> v)\<rparr>)
                                           | DecodeError e \<Rightarrow> DecodeError e
                                           | Panic \<Rightarrow> Panic)
                                        else unmarshalTaskRequest data2 m))
                       else
                         (case ConsumeFieldValue num ty data1 of
                            n1 \<Rightarrow>
                              if n1 < 0 then DecodeError (InvalidField num)
                              else (case slice_from data1 n1 of
                                      None \<Rightarrow> Panic
                                    | Some data2 \<Rightarrow> unmarshalTaskRequest data2 m))))
      else Decoded m)"
  by pat_completeness auto
termination
proof (relation "measure (\<lambda>(data, m). length data)")
qed (auto elim: field_slice_shorter)

declare unmarshalTaskRequest.simps [simp del]

function unmarshalTaskEvent :: "bytes \<Rightarrow> TaskEvent \<Rightarrow> TaskEvent decoding" where
  "unmarshalTaskEvent data m =
     (if length data > 0 then
        (case ConsumeTag data of
           (num, ty, n) \<Rightarrow>
             if n < 0 then DecodeError InvalidTag
             else (case slice_from data n of
                     None \<Rightarrow> Panic
                   | Some data1 \<Rightarrow>
                       if ty = BytesType then
                         (case ConsumeBytes data1 of
                            (val, n2) \<Rightarrow>
                              if n2 < 0 then DecodeError (InvalidBytes num)
                              else (case slice_from data1 n2 of
                                      None \<Rightarrow> Panic
                                    | Some data2 \<Rightarrow>
                                        if num = 1 then unmarshalTaskEvent data2 (m\<lparr>ev_TaskId := val\<rparr>)
                                        else if num = 2 then unmarshalTaskEvent data2 (m\<lparr>ev_Type := val\<rparr>)
                                        else if num = 3 then unmarshalTaskEvent data2 (m\<lparr>ev_Payload := val\<rparr>)
                                        else unmarshalTaskEvent data2 m))
                       else
                         (case ConsumeFieldValue num ty data1 of
                            n1 \<Rightarrow>
                              if n1 < 0 then DecodeError (InvalidField num)
                              else (case slice_from data1 n1 of
                                      None \<Rightarrow> Panic
                                    | Some data2 \<Rightarrow> unmarshalTaskEvent data2 m))))
      else Decoded m)"
  by pat_completeness auto
termination
proof (relation "measure (\<lambda>(data, m). length data)")
qed (auto elim: field_slice_shorter)

declare unmarshalTaskEvent.simps [simp del]

function unmarshalHealthResponse :: "bytes \<Rightarrow> HealthResponse \<Rightarrow> HealthResponse decoding" where
  "unmarshalHealthResponse data m =
     (if length data > 0 then
        (case ConsumeTag data of
           (num, ty, n) \<Rightarrow>
             if n < 0 then DecodeError InvalidTag
             else (case slice_from data n of
                     None \<Rightarrow> Panic
                   | Some data1 \<Rightarrow>
                       if ty = BytesType then
                         (case ConsumeBytes data1 of
                            (val, n2) \<Rightarrow>
                              if n2 < 0 then DecodeError (InvalidBytes num)
                              else (case slice_from data1 n2 of
                                      None \<Rightarrow> Panic
                                    | Some data2 \<Rightarrow>
                                        if num = 1 then unmarshalHealthResponse data2 (m\<lparr>hr_Status := val\<rparr>)
                                        else if num = 2 then unmarshalHealthResponse data2 (m\<lparr>hr_AgentName := val\<rparr>)
                                        else unmarshalHealthResponse data2 m))
                       else
                         (case ConsumeFieldValue num ty data1 of
                            n1 \<Rightarrow>
                              if n1 < 0 then DecodeError (InvalidField num)
                              else (case slice_from data1 n1 of
                                      None \<Rightarrow> Panic
                                    | Some data2 \<Rightarrow> unmarshalHealthResponse data2 m))))
      else Decoded m)"
  by pat_completeness auto
termination
proof (relation "measure (\<lambda>(data, m). length data)")
qed (auto elim: field_slice_shorter)

declare unmarshalHealthResponse.simps [simp del]


section \<open>Errors\<close>

text \<open>
  A Go \<^verbatim>\<open>error\<close> value.  The code tells one error from the others by identity
  (\<^verbatim>\<open>err == io.EOF\<close>); every other error is used through its message only, which
  \<^verbatim>\<open>fmt.Errorf\<close> with \<^verbatim>\<open>%w\<close> copies into the wrapping error.  A nil error is \<open>None\<close>.
\<close>

datatype error = io_EOF | Err string

fun Error_msg :: "error \<Rightarrow> string" where
  "Error_msg io_EOF = ''EOF''"
| "Error_msg (Err s) = s"

section \<open>The stream of events (internal/agent/pb/client.go)\<close>

text \<open>
  A server stream as the client sees it: the events still to come, then the error that
  ends it (\<open>io_EOF\<close> for a normal end).  \<open>Recv\<close> hands out the next event, or the
  final error once the events are used up.
\<close>

type_synonym ExecuteStream = "TaskEvent list \<times> error"

fun Recv :: "ExecuteStream \<Rightarrow> (error + TaskEvent) \<times> ExecuteStream" where
  "Recv ([], e) = (Inl e, ([], e))"
| "Recv (ev # evs, e) = (Inr ev, (evs, e))"

lemma Recv_event_shorter: "Recv s = (Inr ev, s') \<Longrightarrow> length (fst s') < length (fst s)"
  by (cases s rule: Recv.cases) auto

function RecvAllFrom :: "TaskEvent list \<Rightarrow> ExecuteStream \<Rightarrow> TaskEvent list \<times> error option" where
  "RecvAllFrom events s =
     (case Recv s of
        (Inl e, s') \<Rightarrow> if e = io_EOF then (events, None) else (events, Some e)
      | (Inr ev, s') \<Rightarrow> RecvAllFrom (events @ [ev]) s')"
  by pat_completeness auto
termination
  by (relation "measure (\<lambda>(events, s). length (fst s))") (auto dest: Recv_event_shorter [OF sym])

declare RecvAllFrom.simps [simp del]

definition RecvAll :: "ExecuteStream \<Rightarrow> TaskEvent list \<times> error option" where
  "RecvAll s = RecvAllFrom [] s"

section \<open>Manifests (internal/agent/manifest.go)\<close>

record Manifest =
  Name :: string
  Description :: string
  Skills :: "string list"
  Command :: string
  Args :: "string list"
  Dir :: string

definition Validate :: "Manifest \<Rightarrow> error option" where
  "Validate m =
     (if Name m = [] then Some (Err ''name is required'')
      else if length (Skills m) = 0 then Some (Err ''at least one skill is required'')
      else if Command m = [] then Some (Err ''command is required'')
      else None)"

text \<open>
  \<open>LoadManifest\<close> reads and parses through the standard library: \<open>ReadFile\<close> stands for
  \<^verbatim>\<open>os.ReadFile\<close> and \<open>Unmarshal\<close> for \<^verbatim>\<open>json.Unmarshal\<close> into a zero \<open>Manifest\<close> (a
  field the file leaves out keeps its zero value).
\<close>

definition LoadManifest ::
  "(string \<Rightarrow> error + string) \<Rightarrow> (string \<Rightarrow> error + Manifest) \<Rightarrow> string \<Rightarrow> error + Manifest" where
  "LoadManifest ReadFile Unmarshal path =
     (case ReadFile path of
        Inl e \<Rightarrow> Inl (Err (''read manifest '' @ path @ '': '' @ Error_msg e))
      | Inr data \<Rightarrow>
          (case Unmarshal data of
             Inl e \<Rightarrow> Inl (Err (''parse manifest '' @ path @ '': '' @ Error_msg e))
           | Inr m \<Rightarrow>
               (case Validate m of
                  Some e \<Rightarrow> Inl (Err (''invalid manifest '' @ path @ '': '' @ Error_msg e))
                | None \<Rightarrow> Inr m)))"

section \<open>The registry (internal/agent/registry.go)\<close>

record Registry =
  agents :: "Manifest list"
  skillMap :: "string \<rightharpoonup> string"
  reg_baseDir :: string

text \<open>
  What the scan finds at one entry of the agents directory: whether it is a directory,
  whether \<^verbatim>\<open>os.Stat\<close> finds its manifest.json, and what \<open>LoadManifest\<close> returns for
  that file.
\<close>

record dir_entry =
  IsDir :: bool
  manifest_exists :: bool
  loaded :: "error + Manifest"

text \<open>The inner loop of \<^verbatim>\<open>NewRegistry\<close>: the skills of one manifest, in their order.\<close>

fun register_skills :: "(string \<rightharpoonup> string) \<Rightarrow> string \<Rightarrow> string list \<Rightarrow> (string \<rightharpoonup> string)" where
  "register_skills sm name [] = sm"
| "register_skills sm name (skill # skills) =
     (case sm skill of
        Some existing \<Rightarrow> register_skills sm name skills
      | None \<Rightarrow> register_skills (sm(skill \<mapsto> name)) name skills)"

text \<open>The outer loop, over the directory entries in the order \<^verbatim>\<open>os.ReadDir\<close> gave them.\<close>

fun scan_entries :: "Registry \<Rightarrow> dir_entry list \<Rightarrow> Registry" where
  "scan_entries r [] = r"
| "scan_entries r (entry # entries) =
     (if \<not> IsDir entry then scan_entries r entries
      else if \<not> manifest_exists entry then scan_entries r entries
      else (case loaded entry of
              Inl e \<Rightarrow> scan_entries r entries
            | Inr m \<Rightarrow>
                scan_entries
                  (r\<lparr>skillMap := register_skills (skillMap r) (Name m) (Skills m),
                     agents := agents r @ [m]\<rparr>)
                  entries))"

text \<open>
  The result of \<^verbatim>\<open>os.ReadDir\<close>: the entries, or an error that \<^verbatim>\<open>os.IsNotExist\<close>
  accepts or not.  \<open>base\<close> is \<^verbatim>\<open>filepath.Dir(agentsDir)\<close>.
\<close>

datatype read_dir = Entries "dir_entry list" | NotExist | ReadDirError error

definition NewRegistry :: "string \<Rightarrow> read_dir \<Rightarrow> error + Registry" where
  "NewRegistry base rd =
     (let r = \<lparr>agents = [], skillMap = Map.empty, reg_baseDir = base\<rparr> in
      case rd of
        NotExist \<Rightarrow> Inr r
      | ReadDirError e \<Rightarrow> Inl (Err (''read agents dir: '' @ Error_msg e))
      | Entries entries \<Rightarrow> Inr (scan_entries r entries))"

definition AgentForSkill :: "Registry \<Rightarrow> string \<Rightarrow> string option" where
  "AgentForSkill r skill = skillMap r skill"

text \<open>The manifests a scan accepts, in scan order: the entries it does not skip.\<close>

fun accepted :: "dir_entry list \<Rightarrow> Manifest list" where
  "accepted [] = []"
| "accepted (entry # entries) =
     (if IsDir entry \<and> manifest_exists entry
      then (case loaded entry of Inl e \<Rightarrow> accepted entries | Inr m \<Rightarrow> m # accepted entries)
      else accepted entries)"

section \<open>The runner (internal/agent/runner.go)\<close>

datatype State = StateStopped | StateStarting | StateRunning | StateFailed

fun State_string :: "State \<Rightarrow> string" where
  "State_string StateStopped = ''stopped''"
| "State_string StateStarting = ''starting''"
| "State_string StateRunning = ''running''"
| "State_string StateFailed = ''failed''"

text \<open>
  The fields of \<^verbatim>\<open>Runner\<close> that the mutex guards.  \<open>client\<close> is nil (\<open>None\<close>) or the
  client of a connection, named by a number; \<open>cancel\<close> is nil or the cancel function of
  the current child; \<open>done_ch\<close> is the field \<^verbatim>\<open>done\<close>: nil, or a channel that is open or
  closed.
\<close>

datatype chan = Open | Closed

record Runner =
  manifest :: Manifest
  baseDir :: string
  state :: State
  port :: int
  client :: "nat option"
  cancel :: "unit option"
  done_ch :: "chan option"
  err :: "error option"

definition NewRunner :: "Manifest \<Rightarrow> string \<Rightarrow> Runner" where
  "NewRunner m base =
     \<lparr>manifest = m, baseDir = base, state = StateStopped, port = 0, client = None,
      cancel = None, done_ch = None, err = None\<rparr>"

definition setFailed :: "Runner \<Rightarrow> error \<Rightarrow> Runner" where
  "setFailed r e = r\<lparr>state := StateFailed, err := Some e\<rparr>"

subsection \<open>Start, one critical section after the other\<close>

text \<open>
  The first critical section of \<^verbatim>\<open>Start\<close>: \<open>None\<close> when the runner is already running or
  starting and \<^verbatim>\<open>Start\<close> returns nil at once.
\<close>

definition Start_lock :: "Runner \<Rightarrow> Runner option" where
  "Start_lock r =
     (if state r = StateRunning \<or> state r = StateStarting then None
      else Some (r\<lparr>state := StateStarting, err := None, done_ch := Some Open\<rparr>))"

text \<open>
  Each later stage gives the runner it leaves and what \<^verbatim>\<open>Start\<close> returns there, if it
  returns: \<open>Some e\<close> stands for \<^verbatim>\<open>return r.err\<close> after \<^verbatim>\<open>setFailed\<close>, \<open>None\<close> for going
  on to the next stage (after the last stage, for \<^verbatim>\<open>return nil\<close>).  The first stage is
  the spawn: \<^verbatim>\<open>cmd.StdoutPipe\<close> or \<^verbatim>\<open>cmd.Start\<close> may fail.
\<close>

datatype spawn_result = PipeError error | StartError error | Started

fun Start_spawn :: "Runner \<Rightarrow> spawn_result \<Rightarrow> Runner \<times> error option" where
  "Start_spawn r (PipeError e) =
     (let r' = setFailed r (Err (''stdout pipe: '' @ Error_msg e)) in (r', err r'))"
| "Start_spawn r (StartError e) =
     (let r' = setFailed r (Err (''start command: '' @ Error_msg e)) in (r', err r'))"
| "Start_spawn r Started = (r\<lparr>cancel := Some ()\<rparr>, None)"

text \<open>
  The handshake.  What the \<^verbatim>\<open>select\<close> of \<^verbatim>\<open>Start\<close> can see, in the order it happens: a
  line the child wrote (its bytes up to the newline), or the 15 second timer firing; at
  the end of the list the child has closed its standard output.  The lines are read by a
  \<^verbatim>\<open>bufio.Scanner\<close> with its default buffer: \<^verbatim>\<open>Scan\<close> returns false at the end of the
  output and also at a line of \<open>MaxScanTokenSize\<close> bytes or more, and \<^verbatim>\<open>Text\<close> is the line
  without a carriage return at its end (\<open>dropCR\<close>).  \<open>scan\<close> stands for
  \<^verbatim>\<open>fmt.Sscanf(line, "AGENT_PORT=%d", &port)\<close>: \<open>Some port\<close> when it returns no error.
  \<open>await_port\<close> is the scanner goroutine together with the \<^verbatim>\<open>select\<close>.
\<close>

datatype stdout_event = Line string | Timer15s

definition MaxScanTokenSize :: nat where
  "MaxScanTokenSize = 64 * 1024"

definition dropCR :: "string \<Rightarrow> string" where
  "dropCR data = (if data \<noteq> [] \<and> last data = CHR 0x0D then butlast data else data)"

definition HasPrefix :: "string \<Rightarrow> string \<Rightarrow> bool" where
  "HasPrefix s prefix = (take (length prefix) s = prefix)"

fun await_port :: "(string \<Rightarrow> int option) \<Rightarrow> stdout_event list \<Rightarrow> error + int" where
  "await_port scan [] = Inl (Err ''agent exited without printing AGENT_PORT'')"
| "await_port scan (Timer15s # evs) = Inl (Err ''timeout waiting for AGENT_PORT'')"
| "await_port scan (Line raw # evs) =
     (if MaxScanTokenSize \<le> length raw then Inl (Err ''agent exited without printing AGENT_PORT'')
      else if HasPrefix (dropCR raw) ''AGENT_PORT=''
      then (case scan (dropCR raw) of Some p \<Rightarrow> Inr p | None \<Rightarrow> await_port scan evs)
      else await_port scan evs)"

definition Start_handshake ::
  "(string \<Rightarrow> int option) \<Rightarrow> Runner \<Rightarrow> stdout_event list \<Rightarrow> Runner \<times> error option" where
  "Start_handshake scan r evs =
     (case await_port scan evs of
        Inr p \<Rightarrow> (r\<lparr>port := p\<rparr>, None)
      | Inl e \<Rightarrow> (let r' = setFailed r e in (r', err r')))"

text \<open>The last stage: \<^verbatim>\<open>grpc.Dial\<close> gives an error or a connection.\<close>

definition Start_connect :: "Runner \<Rightarrow> error + nat \<Rightarrow> Runner \<times> error option" where
  "Start_connect r dial =
     (case dial of
        Inl e \<Rightarrow> (let r' = setFailed r (Err (''grpc connect: '' @ Error_msg e)) in (r', err r'))
      | Inr conn \<Rightarrow> (r\<lparr>client := Some conn, state := StateRunning\<rparr>, None))"

text \<open>
  \<^verbatim>\<open>Start\<close> as a whole, for a call during which no other goroutine writes the runner:
  the stages one after the other.
\<close>

definition Start ::
  "(string \<Rightarrow> int option) \<Rightarrow> Runner \<Rightarrow> spawn_result \<Rightarrow> stdout_event list \<Rightarrow> error + nat
     \<Rightarrow> Runner \<times> error option" where
  "Start scan r res evs dial =
     (case Start_lock r of
        None \<Rightarrow> (r, None)
      | Some r1 \<Rightarrow>
          (case Start_spawn r1 res of
             (r2, Some e) \<Rightarrow> (r2, Some e)
           | (r2, None) \<Rightarrow>
               (case Start_handshake scan r2 evs of
                  (r3, Some e) \<Rightarrow> (r3, Some e)
                | (r3, None) \<Rightarrow> Start_connect r3 dial)))"

subsection \<open>Stop, the exit monitor, and the readers\<close>

text \<open>
  The critical section of \<^verbatim>\<open>Stop\<close>.  What follows it (closing the client, cancelling the
  child, waiting for \<^verbatim>\<open>done\<close>) writes no field of the runner.
\<close>

definition Stop :: "Runner \<Rightarrow> Runner" where
  "Stop r = r\<lparr>state := StateStopped, client := None, cancel := None\<rparr>"

text \<open>
  \<open>monitor\<close> after \<^verbatim>\<open>cmd.Wait\<close> has returned \<open>exit_err\<close>.  Closing a closed channel
  panics: \<open>None\<close>.
\<close>

definition monitor :: "Runner \<Rightarrow> error option \<Rightarrow> Runner option" where
  "monitor r exit_err =
     (case done_ch r of
        Some Closed \<Rightarrow> None
      | _ \<Rightarrow>
          (let r1 = (if done_ch r \<noteq> None then r\<lparr>done_ch := Some Closed\<rparr> else r) in
           if state r1 = StateRunning then
             Some (r1\<lparr>state := StateFailed,
                      err := Some (case exit_err of
                                     Some e \<Rightarrow> Err (''process exited unexpectedly: '' @ Error_msg e)
                                   | None \<Rightarrow> Err ''process exited unexpectedly with code 0'')\<rparr>)
           else Some r1))"

text \<open>
  \<open>Execute\<close> and \<open>Health\<close> give back the runner as they leave it and their result.
  \<open>opened\<close> is what \<^verbatim>\<open>client.Execute\<close> returns, \<open>reply\<close> what \<^verbatim>\<open>client.Health\<close> returns.
\<close>

definition Execute ::
  "Runner \<Rightarrow> error + ExecuteStream \<Rightarrow> Runner \<times> TaskEvent list \<times> error option" where
  "Execute r opened =
     (if state r \<noteq> StateRunning \<or> client r = None then
        (r, [], Some (Err (''agent '' @ Name (manifest r) @ '' is not running (state: ''
                             @ State_string (state r) @ '')'')))
      else (case opened of
              Inl e \<Rightarrow> (r, [], Some (Err (''execute on '' @ Name (manifest r) @ '': '' @ Error_msg e)))
            | Inr stream \<Rightarrow> (r, RecvAll stream)))"

definition Health :: "Runner \<Rightarrow> error + HealthResponse \<Rightarrow> Runner \<times> (error + HealthResponse)" where
  "Health r reply =
     (if state r \<noteq> StateRunning \<or> client r = None then
        (r, Inl (Err (''agent '' @ Name (manifest r) @ '' is not running'')))
      else (r, reply))"

record AgentStatus =
  st_Name :: string
  st_State :: string
  st_Skills :: "string list"
  st_Port :: int
  st_Error :: string

definition Status :: "Runner \<Rightarrow> AgentStatus" where
  "Status r =
     \<lparr>st_Name = Name (manifest r), st_State = State_string (state r),
      st_Skills = Skills (manifest r), st_Port = port r,
      st_Error = (case err r of None \<Rightarrow> [] | Some e \<Rightarrow> Error_msg e)\<rparr>"

subsection \<open>The runner among its goroutines\<close>

text \<open>
  Every write to the runner happens in a critical section, so a run of the program is a
  sequence of them.  Beside the runner the state holds how many calls of \<^verbatim>\<open>Start\<close> stand
  before the spawn, in the handshake and before the dial, how many exit monitors wait
  for their child, and how many health probes of \<^verbatim>\<open>checkAll\<close> (healthcheck.go) have read
  the state \<^verbatim>\<open>running\<close> and not yet returned.
\<close>

record system =
  runner :: Runner
  at_spawn :: nat
  at_handshake :: nat
  at_dial :: nat
  monitors :: nat
  probes :: nat

datatype action =
    CallStart
  | Spawn spawn_result
  | Handshake "stdout_event list"
  | Dial "error + nat"
  | CallStop
  | ProcessExit "error option"
  | ProbeBegin
  | ProbeEnd "error + HealthResponse"

text \<open>One critical section; \<open>None\<close> when no goroutine stands there, or on a panic.\<close>

fun step :: "(string \<Rightarrow> int option) \<Rightarrow> action \<Rightarrow> system \<Rightarrow> system option" where
  "step scan CallStart s =
     (case Start_lock (runner s) of
        None \<Rightarrow> Some s
      | Some r \<Rightarrow> Some (s\<lparr>runner := r, at_spawn := at_spawn s + 1\<rparr>))"
| "step scan (Spawn res) s =
     (if at_spawn s = 0 then None
      else (case Start_spawn (runner s) res of
              (r, Some e) \<Rightarrow> Some (s\<lparr>runner := r, at_spawn := at_spawn s - 1\<rparr>)
            | (r, None) \<Rightarrow>
                Some (s\<lparr>runner := r, at_spawn := at_spawn s - 1,
                        at_handshake := at_handshake s + 1, monitors := monitors s + 1\<rparr>)))"
| "step scan (Handshake evs) s =
     (if at_handshake s = 0 then None
      else (case Start_handshake scan (runner s) evs of
              (r, Some e) \<Rightarrow> Some (s\<lparr>runner := r, at_handshake := at_handshake s - 1\<rparr>)
            | (r, None) \<Rightarrow>
                Some (s\<lparr>runner := r, at_handshake := at_handshake s - 1, at_dial := at_dial s + 1\<rparr>)))"
| "step scan (Dial d) s =
     (if at_dial s = 0 then None
      else Some (s\<lparr>runner := fst (Start_connect (runner s) d), at_dial := at_dial s - 1\<rparr>))"
| "step scan CallStop s = Some (s\<lparr>runner := Stop (runner s)\<rparr>)"
| "step scan (ProcessExit exit_err) s =
     (if monitors s = 0 then None
      else (case monitor (runner s) exit_err of
              None \<Rightarrow> None
            | Some r \<Rightarrow> Some (s\<lparr>runner := r, monitors := monitors s - 1\<rparr>)))"
| "step scan ProbeBegin s =
     (if state (runner s) = StateRunning then Some (s\<lparr>probes := probes s + 1\<rparr>) else Some s)"
| "step scan (ProbeEnd reply) s =
     (if probes s = 0 then None
      else (case Health (runner s) reply of
              (r, Inl e) \<Rightarrow> Some (s\<lparr>runner := setFailed r e, probes := probes s - 1\<rparr>)
            | (r, Inr resp) \<Rightarrow> Some (s\<lparr>runner := r, probes := probes s - 1\<rparr>)))"

fun exec :: "(string \<Rightarrow> int option) \<Rightarrow> action list \<Rightarrow> system \<Rightarrow> system option" where
  "exec scan [] s = Some s"
| "exec scan (a # as) s = (case step scan a s of None \<Rightarrow> None | Some s' \<Rightarrow> exec scan as s')"

definition initial :: "Manifest \<Rightarrow> string \<Rightarrow> system" where
  "initial m base =
     \<lparr>runner = NewRunner m base, at_spawn = 0, at_handshake = 0, at_dial = 0,
      monitors = 0, probes = 0\<rparr>"

text \<open>The critical sections one call of \<^verbatim>\<open>Start\<close> goes through on a fresh runner.\<close>

fun start_actions ::
  "(string \<Rightarrow> int option) \<Rightarrow> spawn_result \<Rightarrow> stdout_event list \<Rightarrow> error + nat \<Rightarrow> action list" where
  "start_actions scan Started evs dial =
     (case await_port scan evs of
        Inl e \<Rightarrow> [CallStart, Spawn Started, Handshake evs]
      | Inr p \<Rightarrow> [CallStart, Spawn Started, Handshake evs, Dial dial])"
| "start_actions scan res evs dial = [CallStart, Spawn res]"

subsection \<open>Sscanf on a handshake line\<close>

text \<open>
  \<^verbatim>\<open>fmt.Sscanf(line, "AGENT_PORT=%d", &port)\<close> of the standard library, on the bytes of the
  line: after the literal text it skips white space (\<^verbatim>\<open>SkipSpace\<close>), reads an optional
  sign and the decimal digits that follow (\<^verbatim>\<open>scanInt\<close>, \<^verbatim>\<open>strconv.ParseInt\<close>), and leaves
  the rest of the line unread; it fails when there is no digit or the number does not fit
  the 64 bits of \<^verbatim>\<open>int\<close>.  \<open>space_runes\<close> is the table of \<^verbatim>\<open>isSpace\<close>, each rune in its
  UTF-8 encoding: U+0009 to U+000D, U+0020, U+0085, U+00A0, U+1680, U+2000 to U+200A,
  U+2028, U+2029, U+202F, U+205F and U+3000; the newline U+000A is left out, because
  \<^verbatim>\<open>Sscanf\<close> stops at it with an error.  \<open>space_size\<close> is the number of bytes of the white
  space rune at the head of the input, 0 when there is none.  \<open>is_blank\<close> is the white
  space of ASCII.
\<close>

definition is_blank :: "char \<Rightarrow> bool" where
  "is_blank c = (c \<in> {CHR '' '', CHR 0x09, CHR 0x0B, CHR 0x0C, CHR 0x0D})"

definition space_runes :: "string list" where
  "space_runes =
     [[CHR 0x09], [CHR 0x0B], [CHR 0x0C], [CHR 0x0D], [CHR 0x20],
      [CHR 0xC2, CHR 0x85], [CHR 0xC2, CHR 0xA0],
      [CHR 0xE1, CHR 0x9A, CHR 0x80],
      [CHR 0xE2, CHR 0x80, CHR 0x80], [CHR 0xE2, CHR 0x80, CHR 0x81], [CHR 0xE2, CHR 0x80, CHR 0x82],
      [CHR 0xE2, CHR 0x80, CHR 0x83], [CHR 0xE2, CHR 0x80, CHR 0x84], [CHR 0xE2, CHR 0x80, CHR 0x85],
      [CHR 0xE2, CHR 0x80, CHR 0x86], [CHR 0xE2, CHR 0x80, CHR 0x87], [CHR 0xE2, CHR 0x80, CHR 0x88],
      [CHR 0xE2, CHR 0x80, CHR 0x89], [CHR 0xE2, CHR 0x80, CHR 0x8A],
      [CHR 0xE2, CHR 0x80, CHR 0xA8], [CHR 0xE2, CHR 0x80, CHR 0xA9], [CHR 0xE2, CHR 0x80, CHR 0xAF],
      [CHR 0xE2, CHR 0x81, CHR 0x9F],
      [CHR 0xE3, CHR 0x80, CHR 0x80]]"

definition space_size :: "string \<Rightarrow> nat" where
  "space_size s = (case find (HasPrefix s) space_runes of Some w \<Rightarrow> length w | None \<Rightarrow> 0)"

lemma space_size_Nil: "space_size [] = 0"
  by (simp add: space_size_def space_runes_def HasPrefix_def)

function SkipSpace :: "string \<Rightarrow> string" where
  "SkipSpace s = (if space_size s = 0 then s else SkipSpace (drop (space_size s) s))"
  by pat_completeness auto

termination
proof (relation "measure length")
  show "wf (measure length)" by simp
next
  fix s :: string
  assume "space_size s \<noteq> 0"
  then have "s \<noteq> []" using space_size_Nil by auto
  with \<open>space_size s \<noteq> 0\<close> show "(drop (space_size s) s, s) \<in> measure length" by simp
qed

declare SkipSpace.simps [simp del]

definition is_digit :: "char \<Rightarrow> bool" where
  "is_digit c = (48 \<le> (of_char c :: nat) \<and> (of_char c :: nat) \<le> 57)"

fun digits_value :: "nat \<Rightarrow> string \<Rightarrow> nat" where
  "digits_value acc [] = acc"
| "digits_value acc (c # cs) = digits_value (10 * acc + (of_char c - 48)) cs"

definition scan_int :: "string \<Rightarrow> int option" where
  "scan_int s =
     (let neg = (case s of c # t \<Rightarrow> c = CHR ''-'' | [] \<Rightarrow> False);
          s1 = (case s of c # t \<Rightarrow> if c = CHR ''-'' \<or> c = CHR ''+'' then t else s | [] \<Rightarrow> s);
          ds = takeWhile is_digit s1;
          v = digits_value 0 ds
      in if ds = [] then None
         else if neg then (if v \<le> 2 ^ 63 then Some (- int v) else None)
         else (if v < 2 ^ 63 then Some (int v) else None))"

definition Sscanf_port :: "string \<Rightarrow> int option" where
  "Sscanf_port line =
     (if HasPrefix line ''AGENT_PORT='' then scan_int (SkipSpace (drop 11 line))
      else None)"

subsection \<open>The handshake in the words of the specification\<close>

text \<open>
  For the comparison with the code: a line matches when it is \<^verbatim>\<open>AGENT_PORT=\<close> followed by
  one or more decimal digits and nothing else, its port is the number they write, and
  every other line is passed over, whatever its length.
\<close>

definition spec_port_line :: "string \<Rightarrow> int option" where
  "spec_port_line l =
     (if HasPrefix l ''AGENT_PORT='' \<and> drop 11 l \<noteq> [] \<and> (\<forall>c\<in>set (drop 11 l). is_digit c)
      then Some (int (digits_value 0 (drop 11 l))) else None)"

fun spec_await_port :: "stdout_event list \<Rightarrow> error + int" where
  "spec_await_port [] = Inl (Err ''agent exited without printing AGENT_PORT'')"
| "spec_await_port (Timer15s # evs) = Inl (Err ''timeout waiting for AGENT_PORT'')"
| "spec_await_port (Line l # evs) =
     (case spec_port_line l of Some p \<Rightarrow> Inr p | None \<Rightarrow> spec_await_port evs)"

subsection \<open>The stub agent of the scenarios\<close>

definition stub_manifest :: Manifest where
  "stub_manifest =
     \<lparr>Name = ''s1'', Description = [], Skills = [''echo''], Command = ''./stub'', Args = [], Dir = ''.''\<rparr>"

text \<open>A line of 64 KiB that a child may write before its port line.\<close>

definition long_line :: string where
  "long_line = replicate 65536 (CHR ''x'')"

section \<open>Properties of the wire format and the codec\<close>

subsection \<open>No slice expression of the decoders is out of range\<close>


















subsection \<open>Decoding an encoded field\<close>

lemma varint_nonempty: "varint v \<noteq> []"
  by (subst varint.simps) simp


lemma varint_small: "v < 128 \<Longrightarrow> varint v = [char_of v]"
  by (subst varint.simps) simp

lemma varint_big: "\<not> v < 128 \<Longrightarrow> varint v = char_of (v mod 128 + 128) # varint (v div 128)"
  by (subst varint.simps) simp

lemma of_char_cont: "(of_char (char_of (v mod 128 + 128)) :: nat) = v mod 128 + 128"
proof -
  have "v mod 128 + 128 < 256"
    using mod_less_divisor [of 128 v] by linarith
  then show ?thesis by simp
qed


lemma pow_split: "i < 9 \<Longrightarrow> (2::nat) ^ (64 - 7 * i) = 128 * 2 ^ (64 - 7 * Suc i)"
proof -
  assume i: "i < 9"
  have "64 - 7 * i = 7 + (64 - 7 * Suc i)" using i by simp
  then have "(2::nat) ^ (64 - 7 * i) = 2 ^ 7 * 2 ^ (64 - 7 * Suc i)"
    by (simp only: power_add)
  then show ?thesis by simp
qed

lemma consumeVarintFrom_varint:
  "i \<le> 9 \<Longrightarrow> v < 2 ^ (64 - 7 * i)
     \<Longrightarrow> consumeVarintFrom i (varint v @ rest) = (v, int (length (varint v)))"
proof (induction v arbitrary: i rule: varint.induct)
  case (1 v)
  show ?case
  proof (cases "v < 128")
    case True
    have "i = 9 \<Longrightarrow> v < 2" using "1.prems" by simp
    with True show ?thesis
      by (simp add: varint_small Let_def)
  next
    case False
    have i: "i < 9"
    proof (rule ccontr)
      assume "\<not> i < 9"
      with "1.prems" have "i = 9" by simp
      with "1.prems" False show False by simp
    qed
    have "v < 128 * 2 ^ (64 - 7 * Suc i)"
      using "1.prems"(2) pow_split [OF i] by simp
    then have "v div 128 < 2 ^ (64 - 7 * Suc i)"
      by (simp add: less_mult_imp_div_less mult.commute)
    with i False have IH: "consumeVarintFrom (Suc i) (varint (v div 128) @ rest)
        = (v div 128, int (length (varint (v div 128))))"
      using "1.IH" [of "Suc i"] by simp
    have v: "v mod 128 + 128 * (v div 128) = v" by simp
    from False i show ?thesis
      by (simp add: varint_big Let_def IH of_char_cont v del: of_char_of)
  qed
qed

lemma ConsumeVarint_varint:
  "v < 2 ^ 64 \<Longrightarrow> ConsumeVarint (varint v @ rest) = (v, int (length (varint v)))"
  unfolding ConsumeVarint_def using consumeVarintFrom_varint [of 0 v rest] by simp


lemma ConsumeTag_AppendTag:
  assumes "1 \<le> num" "num \<le> 2147483647" "0 \<le> ty" "ty < 8"
  shows "ConsumeTag (AppendTag [] num ty @ rest) = (num, ty, int (length (AppendTag [] num ty)))"
proof -
  let ?x = "EncodeTag num ty"
  have x: "?x = nat num * 8 + nat ty" using assms by (simp add: EncodeTag_def)
  have "nat num \<le> 2147483647" using assms by simp
  then have lt: "?x < 2 ^ 64" using assms unfolding x by simp
  have d: "?x div 8 = nat num" "?x mod 8 = nat ty" using assms unfolding x by simp_all
  have "DecodeTag ?x = (num, ty)"
    using assms unfolding DecodeTag_def d by simp
  then show ?thesis
    using assms ConsumeVarint_varint [OF lt, of rest]
    by (simp add: ConsumeTag_def AppendTag_def AppendVarint_def)
qed

lemma ConsumeBytes_AppendBytes:
  assumes "length s < 2 ^ 64"
  shows "ConsumeBytes (AppendBytes [] s @ rest) = (s, int (length (AppendBytes [] s)))"
  using ConsumeVarint_varint [OF assms, of "s @ rest"]
  by (simp add: ConsumeBytes_def AppendBytes_def AppendVarint_def)

lemma appendBytes_append: "appendBytes b num data = b @ appendBytes [] num data"
  by (simp add: appendBytes_def AppendBytes_def AppendTag_def AppendVarint_def)

lemma appendString_append: "appendString b num s = b @ appendString [] num s"
  by (simp add: appendString_def AppendBytes_def AppendTag_def AppendVarint_def)

lemma appendBytes_split:
  "appendBytes [] num data = AppendTag [] num BytesType @ AppendBytes [] data"
  by (simp add: appendBytes_def AppendBytes_def AppendTag_def AppendVarint_def)

lemma marshalMetadata_append: "marshalMetadata b md ks = b @ marshalMetadata [] md ks"
proof (induction ks arbitrary: b)
  case Nil
  show ?case by simp
next
  case (Cons k ks)
  show ?case
  proof (cases "md k")
    case None
    then show ?thesis using Cons.IH [of b] by simp
  next
    case (Some v)
    then show ?thesis
      using Cons.IH [of "appendBytes b 4 (marshalEntry k v)"]
        Cons.IH [of "appendBytes [] 4 (marshalEntry k v)"]
        appendBytes_append [of b 4 "marshalEntry k v"]
      by simp
  qed
qed

text \<open>What the decoders see at an encoded length-delimited field.\<close>

lemma field_head:
  assumes "1 \<le> num" "num \<le> 2147483647" "length s < 2 ^ 64"
  shows "ConsumeTag (appendBytes [] num s @ rest) = (num, BytesType, int (length (AppendTag [] num BytesType)))"
    and "slice_from (appendBytes [] num s @ rest) (int (length (AppendTag [] num BytesType)))
           = Some (AppendBytes [] s @ rest)"
    and "ConsumeBytes (AppendBytes [] s @ rest) = (s, int (length (AppendBytes [] s)))"
    and "slice_from (AppendBytes [] s @ rest) (int (length (AppendBytes [] s))) = Some rest"
    and "appendBytes [] num s \<noteq> []"
proof -
  show "ConsumeTag (appendBytes [] num s @ rest) = (num, BytesType, int (length (AppendTag [] num BytesType)))"
    using ConsumeTag_AppendTag [of num BytesType "AppendBytes [] s @ rest"] assms
    by (simp add: appendBytes_split BytesType_def)
  show "slice_from (appendBytes [] num s @ rest) (int (length (AppendTag [] num BytesType)))
           = Some (AppendBytes [] s @ rest)"
    by (simp add: appendBytes_split slice_from_def)
  show "ConsumeBytes (AppendBytes [] s @ rest) = (s, int (length (AppendBytes [] s)))"
    by (rule ConsumeBytes_AppendBytes [OF assms(3)])
  show "slice_from (AppendBytes [] s @ rest) (int (length (AppendBytes [] s))) = Some rest"
    by (simp add: slice_from_def)
  show "appendBytes [] num s \<noteq> []"
    by (simp add: appendBytes_split AppendTag_def AppendVarint_def varint_nonempty)
qed


lemma appendString_step:
  "appendString [] num s @ rest = (if s = [] then rest else appendBytes [] num s @ rest)"
  by (simp add: appendString_def appendBytes_def)

lemma length_le_appendString: "length s \<le> length (appendString [] num s)"
  by (simp add: appendString_def AppendBytes_def AppendTag_def AppendVarint_def)

lemma length_le_appendBytes: "length s \<le> length (appendBytes [] num s)"
  by (simp add: appendBytes_def AppendBytes_def AppendTag_def AppendVarint_def)

lemma mapEntryLoop_Nil: "mapEntryLoop [] k v = Decoded (k, v)"
  by (subst mapEntryLoop.simps) simp

lemma mapEntryLoop_field:
  assumes "1 \<le> num" "num \<le> 2147483647" "length s < 2 ^ 64"
  shows "mapEntryLoop (appendBytes [] num s @ rest) k v =
           (if num = 1 then mapEntryLoop rest s v
            else if num = 2 then mapEntryLoop rest k s
            else mapEntryLoop rest k v)"
  by (subst mapEntryLoop.simps) (simp add: field_head [OF assms] split del: if_split)

lemma unmarshalMapEntry_marshalEntry:
  assumes "length (marshalEntry k v) < 2 ^ 64"
  shows "unmarshalMapEntry (marshalEntry k v) = Decoded (k, v)"
proof -
  have e: "marshalEntry k v = appendString [] 1 k @ appendString [] 2 v @ []"
    using appendString_append [of "appendString [] 1 k" 2 v] by (simp add: marshalEntry_def)
  have "length k \<le> length (marshalEntry k v)" "length v \<le> length (marshalEntry k v)"
    using length_le_appendString [of k 1] length_le_appendString [of v 2] unfolding e by simp_all
  with assms have l: "length k < 2 ^ 64" "length v < 2 ^ 64" by simp_all
  show ?thesis
    unfolding unmarshalMapEntry_def e appendString_step
    using mapEntryLoop_field [OF _ _ l(1), of 1 "appendBytes [] 2 v @ []" "[]" "[]"]
      mapEntryLoop_field [OF _ _ l(1), of 1 "[]" "[]" "[]"]
      mapEntryLoop_field [OF _ _ l(2), of 2 "[]" k "[]"]
      mapEntryLoop_field [OF _ _ l(2), of 2 "[]" "[]" "[]"]
    by (simp add: mapEntryLoop_Nil)
qed

lemma unmarshalTaskRequest_Nil: "unmarshalTaskRequest [] m = Decoded m"
  by (subst unmarshalTaskRequest.simps) simp

lemma unmarshalTaskRequest_field:
  assumes "1 \<le> num" "num \<le> 2147483647" "length s < 2 ^ 64"
  shows "unmarshalTaskRequest (appendBytes [] num s @ rest) m =
           (if num = 1 then unmarshalTaskRequest rest (m\<lparr>TaskId := s\<rparr>)
            else if num = 2 then unmarshalTaskRequest rest (m\<lparr>Skill := s\<rparr>)
            else if num = 3 then unmarshalTaskRequest rest (m\<lparr>Input := s\<rparr>)
            else if num = 4 then
              (case unmarshalMapEntry s of
                 Decoded (k, v) \<Rightarrow> unmarshalTaskRequest rest (m\<lparr>Metadata := (Metadata m)(k \<mapsto> v)\<rparr>)
               | DecodeError e \<Rightarrow> DecodeError e
               | Panic \<Rightarrow> Panic)
            else unmarshalTaskRequest rest m)"
  by (subst unmarshalTaskRequest.simps) (simp add: field_head [OF assms] split del: if_split)

lemma unmarshalTaskEvent_Nil: "unmarshalTaskEvent [] m = Decoded m"
  by (subst unmarshalTaskEvent.simps) simp

lemma unmarshalTaskEvent_field:
  assumes "1 \<le> num" "num \<le> 2147483647" "length s < 2 ^ 64"
  shows "unmarshalTaskEvent (appendBytes [] num s @ rest) m =
           (if num = 1 then unmarshalTaskEvent rest (m\<lparr>ev_TaskId := s\<rparr>)
            else if num = 2 then unmarshalTaskEvent rest (m\<lparr>ev_Type := s\<rparr>)
            else if num = 3 then unmarshalTaskEvent rest (m\<lparr>ev_Payload := s\<rparr>)
            else unmarshalTaskEvent rest m)"
  by (subst unmarshalTaskEvent.simps) (simp add: field_head [OF assms] split del: if_split)

lemma unmarshalHealthResponse_Nil: "unmarshalHealthResponse [] m = Decoded m"
  by (subst unmarshalHealthResponse.simps) simp

lemma unmarshalHealthResponse_field:
  assumes "1 \<le> num" "num \<le> 2147483647" "length s < 2 ^ 64"
  shows "unmarshalHealthResponse (appendBytes [] num s @ rest) m =
           (if num = 1 then unmarshalHealthResponse rest (m\<lparr>hr_Status := s\<rparr>)
            else if num = 2 then unmarshalHealthResponse rest (m\<lparr>hr_AgentName := s\<rparr>)
            else unmarshalHealthResponse rest m)"
  by (subst unmarshalHealthResponse.simps) (simp add: field_head [OF assms] split del: if_split)


subsection \<open>Decoding an encoded message\<close>

lemmas unmarshalTaskEvent_last = unmarshalTaskEvent_field [where rest = "[]", unfolded append_Nil2]
lemmas unmarshalHealthResponse_last = unmarshalHealthResponse_field [where rest = "[]", unfolded append_Nil2]

lemma unmarshalTaskEvent_roundtrip:
  assumes "length (marshalTaskEvent m) < 2 ^ 63"
  shows "unmarshalTaskEvent (marshalTaskEvent m) zeroTaskEvent = Decoded m"
proof -
  let ?a = "ev_TaskId m" and ?b = "ev_Type m" and ?c = "ev_Payload m"
  have e: "marshalTaskEvent m = appendString [] 1 ?a @ appendString [] 2 ?b @ appendString [] 3 ?c @ []"
    using appendString_append [of "appendString (appendString [] 1 ?a) 2 ?b" 3 ?c]
      appendString_append [of "appendString [] 1 ?a" 2 ?b]
    by (simp add: marshalTaskEvent_def)
  have "length ?a \<le> length (marshalTaskEvent m)" "length ?b \<le> length (marshalTaskEvent m)"
    "length ?c \<le> length (marshalTaskEvent m)"
    using length_le_appendString [of ?a 1] length_le_appendString [of ?b 2]
      length_le_appendString [of ?c 3] unfolding e by simp_all
  with assms have l: "length ?a < 2 ^ 64" "length ?b < 2 ^ 64" "length ?c < 2 ^ 64" by simp_all
  have "unmarshalTaskEvent (marshalTaskEvent m) zeroTaskEvent
      = Decoded \<lparr>ev_TaskId = ?a, ev_Type = ?b, ev_Payload = ?c\<rparr>"
    unfolding e appendString_step
    by (simp add: unmarshalTaskEvent_field [OF _ _ l(1)] unmarshalTaskEvent_field [OF _ _ l(2)]
        unmarshalTaskEvent_field [OF _ _ l(3)] unmarshalTaskEvent_last [OF _ _ l(1)]
        unmarshalTaskEvent_last [OF _ _ l(2)] unmarshalTaskEvent_last [OF _ _ l(3)]
        unmarshalTaskEvent_Nil zeroTaskEvent_def)
  then show ?thesis by simp
qed

lemma unmarshalHealthResponse_roundtrip:
  assumes "length (marshalHealthResponse m) < 2 ^ 63"
  shows "unmarshalHealthResponse (marshalHealthResponse m) zeroHealthResponse = Decoded m"
proof -
  let ?a = "hr_Status m" and ?b = "hr_AgentName m"
  have e: "marshalHealthResponse m = appendString [] 1 ?a @ appendString [] 2 ?b @ []"
    using appendString_append [of "appendString [] 1 ?a" 2 ?b]
    by (simp add: marshalHealthResponse_def)
  have "length ?a \<le> length (marshalHealthResponse m)" "length ?b \<le> length (marshalHealthResponse m)"
    using length_le_appendString [of ?a 1] length_le_appendString [of ?b 2] unfolding e by simp_all
  with assms have l: "length ?a < 2 ^ 64" "length ?b < 2 ^ 64" by simp_all
  have "unmarshalHealthResponse (marshalHealthResponse m) zeroHealthResponse
      = Decoded \<lparr>hr_Status = ?a, hr_AgentName = ?b\<rparr>"
    unfolding e appendString_step
    by (simp add: unmarshalHealthResponse_field [OF _ _ l(1)] unmarshalHealthResponse_field [OF _ _ l(2)]
        unmarshalHealthResponse_last [OF _ _ l(1)] unmarshalHealthResponse_last [OF _ _ l(2)]
        unmarshalHealthResponse_Nil zeroHealthResponse_def)
  then show ?thesis by simp
qed

lemma marshalMetadata_Cons:
  "marshalMetadata [] md (k # ks) =
     (case md k of None \<Rightarrow> marshalMetadata [] md ks
      | Some v \<Rightarrow> appendBytes [] 4 (marshalEntry k v) @ marshalMetadata [] md ks)"
proof (cases "md k")
  case None
  then show ?thesis by simp
next
  case (Some v)
  then show ?thesis
    using marshalMetadata_append [of "appendBytes [] 4 (marshalEntry k v)" md ks]
      appendBytes_append [of "[]" 4 "marshalEntry k v"]
    by (simp add: appendBytes_def)
qed

lemma unmarshalTaskRequest_metadata:
  "length (marshalMetadata [] md ks) < 2 ^ 63
     \<Longrightarrow> unmarshalTaskRequest (marshalMetadata [] md ks) m
           = Decoded (m\<lparr>Metadata := Metadata m ++ (md |` set ks)\<rparr>)"
proof (induction ks arbitrary: m)
  case Nil
  show ?case by (simp add: unmarshalTaskRequest_Nil)
next
  case (Cons k ks)
  show ?case
  proof (cases "md k")
    case None
    then have r: "md |` set (k # ks) = md |` set ks"
      by (auto simp: restrict_map_def)
    from None Cons.prems have "length (marshalMetadata [] md ks) < 2 ^ 63" by simp
    from Cons.IH [OF this, of m] None show ?thesis
      unfolding r by simp
  next
    case (Some v)
    let ?e = "marshalEntry k v"
    have c: "marshalMetadata [] md (k # ks) = appendBytes [] 4 ?e @ marshalMetadata [] md ks"
      using Some by (simp add: marshalMetadata_Cons del: marshalMetadata.simps)
    have "length ?e \<le> length (appendBytes [] 4 ?e)" by (rule length_le_appendBytes)
    with Cons.prems have l: "length ?e < 2 ^ 64" and l': "length (marshalMetadata [] md ks) < 2 ^ 63"
      unfolding c by simp_all
    have r: "(Metadata m)(k \<mapsto> v) ++ (md |` set ks) = Metadata m ++ (md |` set (k # ks))"
      using Some by (auto simp: restrict_map_def map_add_def split: option.splits)
    let ?m' = "m\<lparr>Metadata := (Metadata m)(k \<mapsto> v)\<rparr>"
    have "unmarshalTaskRequest (marshalMetadata [] md (k # ks)) m
        = unmarshalTaskRequest (marshalMetadata [] md ks) ?m'"
      unfolding c
      by (simp add: unmarshalTaskRequest_field [OF _ _ l] unmarshalMapEntry_marshalEntry [OF l])
    also have "\<dots> = Decoded (?m'\<lparr>Metadata := Metadata ?m' ++ (md |` set ks)\<rparr>)"
      by (rule Cons.IH [OF l'])
    also have "?m'\<lparr>Metadata := Metadata ?m' ++ (md |` set ks)\<rparr>
        = m\<lparr>Metadata := (Metadata m)(k \<mapsto> v) ++ (md |` set ks)\<rparr>"
      by simp
    finally show ?thesis by (simp only: r)
  qed
qed

lemma unmarshalTaskRequest_roundtrip:
  assumes "length (marshalTaskRequest ks m) < 2 ^ 63" and "set ks = dom (Metadata m)"
  shows "unmarshalTaskRequest (marshalTaskRequest ks m) zeroTaskRequest = Decoded m"
proof -
  let ?a = "TaskId m" and ?b = "Skill m" and ?c = "Input m"
  let ?md = "marshalMetadata [] (Metadata m) ks"
  have e: "marshalTaskRequest ks m = appendString [] 1 ?a @ appendString [] 2 ?b @ appendString [] 3 ?c @ ?md"
    using appendString_append [of "appendString (appendString [] 1 ?a) 2 ?b" 3 ?c]
      appendString_append [of "appendString [] 1 ?a" 2 ?b]
      marshalMetadata_append [of "appendString (appendString (appendString [] 1 ?a) 2 ?b) 3 ?c" "Metadata m" ks]
    by (simp add: marshalTaskRequest_def)
  have "length ?a \<le> length (marshalTaskRequest ks m)" "length ?b \<le> length (marshalTaskRequest ks m)"
    "length ?c \<le> length (marshalTaskRequest ks m)" "length ?md \<le> length (marshalTaskRequest ks m)"
    using length_le_appendString [of ?a 1] length_le_appendString [of ?b 2]
      length_le_appendString [of ?c 3] unfolding e by simp_all
  with assms have l: "length ?a < 2 ^ 64" "length ?b < 2 ^ 64" "length ?c < 2 ^ 64"
    and lm: "length ?md < 2 ^ 63" by simp_all
  have full: "Map.empty ++ (Metadata m |` set ks) = Metadata m"
    unfolding assms(2) by (rule ext) (auto simp: restrict_map_def map_add_def domIff split: option.splits)
  have "unmarshalTaskRequest (marshalTaskRequest ks m) zeroTaskRequest
      = Decoded \<lparr>TaskId = ?a, Skill = ?b, Input = ?c, Metadata = Metadata m\<rparr>"
    unfolding e appendString_step
    using full
    by (simp add: unmarshalTaskRequest_field [OF _ _ l(1)] unmarshalTaskRequest_field [OF _ _ l(2)]
        unmarshalTaskRequest_field [OF _ _ l(3)] unmarshalTaskRequest_metadata [OF lm]
        zeroTaskRequest_def del: map_add_empty empty_map_add)
  then show ?thesis by simp
qed


subsection \<open>Skipping a field\<close>







section \<open>Claims about the codec\<close>

text \<open>
  C3.  Decoding the encoding of a message gives the message back, for each of the three
  message shapes: every string field, the empty ones included (an empty string is left off
  the wire, \<open>appendString b num [] = b\<close>, and the zero message the decoder starts from
  has it empty), and every metadata entry with its key and value, whatever the order
  \<open>ks\<close> in which the encoder's loop visits the keys of the map.  The encoding is a Go
  slice, so it is shorter than \<open>2 ^ 63\<close> bytes.
\<close>

theorem codec_round_trip:
  "(length (marshalTaskRequest ks req) < 2 ^ 63 \<and> set ks = dom (Metadata req)
      \<longrightarrow> unmarshalTaskRequest (marshalTaskRequest ks req) zeroTaskRequest = Decoded req)
   \<and> (length (marshalTaskEvent ev) < 2 ^ 63
      \<longrightarrow> unmarshalTaskEvent (marshalTaskEvent ev) zeroTaskEvent = Decoded ev)
   \<and> (length (marshalHealthResponse h) < 2 ^ 63
      \<longrightarrow> unmarshalHealthResponse (marshalHealthResponse h) zeroHealthResponse = Decoded h)
   \<and> appendString b num [] = b"
  using unmarshalTaskRequest_roundtrip [of ks req] unmarshalTaskEvent_roundtrip [of ev]
    unmarshalHealthResponse_roundtrip [of h]
  by (simp add: appendString_def)

theorem codec_round_trip_witness:
  "unmarshalTaskRequest
     (marshalTaskRequest [''b'', ''a'']
        \<lparr>TaskId = ''t1'', Skill = ''s'', Input = [], Metadata = [''a'' \<mapsto> ''1'', ''b'' \<mapsto> ''2'']\<rparr>)
     zeroTaskRequest
     = Decoded \<lparr>TaskId = ''t1'', Skill = ''s'', Input = [], Metadata = [''a'' \<mapsto> ''1'', ''b'' \<mapsto> ''2'']\<rparr>
   \<and> unmarshalTaskEvent (marshalTaskEvent \<lparr>ev_TaskId = ''t1'', ev_Type = ''result'', ev_Payload = []\<rparr>)
       zeroTaskEvent
     = Decoded \<lparr>ev_TaskId = ''t1'', ev_Type = ''result'', ev_Payload = []\<rparr>
   \<and> unmarshalHealthResponse (marshalHealthResponse \<lparr>hr_Status = ''ok'', hr_AgentName = []\<rparr>)
       zeroHealthResponse
     = Decoded \<lparr>hr_Status = ''ok'', hr_AgentName = []\<rparr>"
proof -
  let ?req = "\<lparr>TaskId = ''t1'', Skill = ''s'', Input = [], Metadata = [''a'' \<mapsto> ''1'', ''b'' \<mapsto> ''2'']\<rparr>"
  let ?ev = "\<lparr>ev_TaskId = ''t1'', ev_Type = ''result'', ev_Payload = []\<rparr>"
  let ?h = "\<lparr>hr_Status = ''ok'', hr_AgentName = []\<rparr>"
  note enc = marshalTaskRequest_def marshalTaskEvent_def marshalHealthResponse_def
    marshalEntry_def appendString_def appendBytes_def AppendBytes_def AppendTag_def
    AppendVarint_def EncodeTag_def BytesType_def varint_small
  have 1: "length (marshalTaskRequest [''b'', ''a''] ?req) < 2 ^ 63 \<and> set [''b'', ''a''] = dom (Metadata ?req)"
    by (auto simp: enc)
  have 2: "length (marshalTaskEvent ?ev) < 2 ^ 63" by (simp add: enc)
  have 3: "length (marshalHealthResponse ?h) < 2 ^ 63" by (simp add: enc)
  from 1 2 3 codec_round_trip [of "[''b'', ''a'']" ?req ?ev ?h] show ?thesis
    by blast
qed

text \<open>The bytes on the wire: a two-byte varint, and the request of the codec
  compatibility scenario, field by field.\<close>

lemma varint_300: "varint 300 = [CHR 0xAC, CHR 0x02]"
  by (simp add: varint_big varint_small char_of_eq_iff take_bit_eq_mod)

lemma ConsumeVarint_300: "ConsumeVarint [CHR 0xAC, CHR 0x02, CHR 0x61] = (300, 2)"
  by (simp add: ConsumeVarint_def)

lemma marshalTaskRequest_example:
  "marshalTaskRequest [''a'', ''b'']
     \<lparr>TaskId = ''t1'', Skill = ''s'', Input = [], Metadata = [''a'' \<mapsto> ''1'', ''b'' \<mapsto> ''2'']\<rparr>
   = [CHR 0x0A, CHR 0x02, CHR ''t'', CHR ''1'',
      CHR 0x12, CHR 0x01, CHR ''s'',
      CHR 0x22, CHR 0x06, CHR 0x0A, CHR 0x01, CHR ''a'', CHR 0x12, CHR 0x01, CHR ''1'',
      CHR 0x22, CHR 0x06, CHR 0x0A, CHR 0x01, CHR ''b'', CHR 0x12, CHR 0x01, CHR ''2'']"
  by (simp add: marshalTaskRequest_def marshalEntry_def appendString_def appendBytes_def
      AppendBytes_def AppendTag_def AppendVarint_def EncodeTag_def BytesType_def varint_small
      char_of_eq_iff take_bit_eq_mod)



text \<open>Two malformed inputs: a length prefix that runs past the end of the input, and a
  tag with the reserved wire type 6, which has no extent to skip.\<close>

lemma decode_truncated_example:
  "unmarshalTaskRequest [CHR 0x0A, CHR 0x05, CHR 0x61] zeroTaskRequest = DecodeError (InvalidBytes 1)"
  by (simp add: unmarshalTaskRequest.simps ConsumeTag_def ConsumeVarint_def DecodeTag_def
      BytesType_def slice_from_def ConsumeBytes_def errCodeTruncated_def)

lemma decode_reserved_type_example:
  "unmarshalTaskRequest [CHR 0x0E, CHR 0x61] zeroTaskRequest = DecodeError (InvalidField 1)"
  by (simp add: unmarshalTaskRequest.simps ConsumeTag_def ConsumeVarint_def DecodeTag_def
      BytesType_def slice_from_def ConsumeFieldValue_def consumeFieldValueD.simps
      VarintType_def Fixed32Type_def Fixed64Type_def StartGroupType_def EndGroupType_def
      errCodeReserved_def)


section \<open>Claims about manifests and the registry\<close>

lemma register_skills_lookup:
  "register_skills sm name skills s =
     (case sm s of Some owner \<Rightarrow> Some owner
      | None \<Rightarrow> if s \<in> set skills then Some name else None)"
  by (induction skills arbitrary: sm) (auto split: option.splits)

lemma scan_entries_agents: "agents (scan_entries r es) = agents r @ accepted es"
  by (induction es arbitrary: r) (auto split: sum.splits)

lemma scan_entries_skillMap:
  "skillMap (scan_entries r es) s =
     (case skillMap r s of Some owner \<Rightarrow> Some owner
      | None \<Rightarrow> map_option Name (find (\<lambda>m. s \<in> set (Skills m)) (accepted es)))"
proof (induction es arbitrary: r)
  case Nil
  show ?case by (simp split: option.splits)
next
  case (Cons e es)
  show ?case
  proof (cases "IsDir e \<and> manifest_exists e")
    case False
    then show ?thesis using Cons.IH [of r] by (auto split: option.splits)
  next
    case True
    show ?thesis
    proof (cases "loaded e")
      case (Inl x)
      with True show ?thesis using Cons.IH [of r] by (simp split: option.splits)
    next
      case (Inr m)
      let ?r = "r\<lparr>skillMap := register_skills (skillMap r) (Name m) (Skills m), agents := agents r @ [m]\<rparr>"
      from True Inr have "skillMap (scan_entries r (e # es)) s = skillMap (scan_entries ?r es) s"
        by simp
      also have "\<dots> = (case skillMap ?r s of Some owner \<Rightarrow> Some owner
          | None \<Rightarrow> map_option Name (find (\<lambda>m. s \<in> set (Skills m)) (accepted es)))"
        by (rule Cons.IH)
      finally show ?thesis
        using True Inr by (simp add: register_skills_lookup split: option.splits)
    qed
  qed
qed

text \<open>
  C5.  The registry built from a directory scan lists every accepted manifest, in scan
  order, and maps each skill to exactly one agent name: the name of the first accepted
  manifest that declares the skill (no name when none does).  So a manifest that loses
  one skill to an earlier manifest is still listed, and still owns each of its skills
  that no earlier manifest declares.
\<close>

theorem registry_first_declarant:
  "\<exists>r. NewRegistry base (Entries es) = Inr r
       \<and> agents r = accepted es
       \<and> (\<forall>skill. AgentForSkill r skill
                    = map_option Name (find (\<lambda>m. skill \<in> set (Skills m)) (accepted es)))"
  by (simp add: NewRegistry_def AgentForSkill_def scan_entries_agents scan_entries_skillMap)

text \<open>Two manifests declare \<open>summarize\<close>: the first in scan order owns it, the second
  is listed all the same and owns its other skill.\<close>

lemma registry_conflict_example:
  "map_sum id (\<lambda>r. (map Name (agents r), AgentForSkill r ''summarize'',
                      AgentForSkill r ''translate'', AgentForSkill r ''echo''))
     (NewRegistry ''/srv'' (Entries
        [\<lparr>IsDir = True, manifest_exists = True,
           loaded = Inr \<lparr>Name = ''a1'', Description = [], Skills = [''summarize''],
                         Command = ''./a1'', Args = [], Dir = ''agents/a1''\<rparr>\<rparr>,
         \<lparr>IsDir = False, manifest_exists = False, loaded = Inl (Err ''not a directory'')\<rparr>,
         \<lparr>IsDir = True, manifest_exists = True,
           loaded = Inr \<lparr>Name = ''a2'', Description = [], Skills = [''summarize'', ''translate''],
                         Command = ''./a2'', Args = [], Dir = ''agents/a2''\<rparr>\<rparr>]))
   = Inr ([''a1'', ''a2''], Some ''a1'', Some ''a2'', None)"
  by (simp add: NewRegistry_def AgentForSkill_def)

text \<open>
  C8 (amended).  \<open>LoadManifest\<close> fails with an error of its own for each cause: a read
  error, a parse error and a validation error carry three messages that can never be
  equal.  Validation rejects a manifest exactly when its name is empty, it has no skill,
  or its command is empty; it does not look at \<open>dir\<close>, so a manifest with name, skills
  and command passes whether or not it has a \<open>dir\<close>.
\<close>

theorem load_manifest_errors:
  "(Validate m = None \<longleftrightarrow> Name m \<noteq> [] \<and> Skills m \<noteq> [] \<and> Command m \<noteq> [])
   \<and> (ReadFile path = Inl e \<longrightarrow>
        LoadManifest ReadFile Unmarshal path = Inl (Err (''read manifest '' @ path @ '': '' @ Error_msg e)))
   \<and> (ReadFile path = Inr data \<and> Unmarshal data = Inl e \<longrightarrow>
        LoadManifest ReadFile Unmarshal path = Inl (Err (''parse manifest '' @ path @ '': '' @ Error_msg e)))
   \<and> (ReadFile path = Inr data \<and> Unmarshal data = Inr m \<and> Validate m = Some e \<longrightarrow>
        LoadManifest ReadFile Unmarshal path = Inl (Err (''invalid manifest '' @ path @ '': '' @ Error_msg e)))
   \<and> (ReadFile path = Inr data \<and> Unmarshal data = Inr m \<and> Validate m = None \<longrightarrow>
        LoadManifest ReadFile Unmarshal path = Inr m)
   \<and> Err (''read manifest '' @ x) \<noteq> Err (''parse manifest '' @ y)
   \<and> Err (''read manifest '' @ x) \<noteq> Err (''invalid manifest '' @ z)
   \<and> Err (''parse manifest '' @ y) \<noteq> Err (''invalid manifest '' @ z)"
  by (auto simp: LoadManifest_def Validate_def)

theorem load_manifest_errors_witness:
  "Validate \<lparr>Name = ''s1'', Description = [], Skills = [''echo''], Command = ''./stub'',
             Args = [], Dir = ''.''\<rparr> = None
   \<and> LoadManifest (\<lambda>p. Inl (Err ''no such file'')) (\<lambda>d. Inl (Err ''unused'')) ''m.json''
       = Inl (Err ''read manifest m.json: no such file'')
   \<and> LoadManifest (\<lambda>p. Inr ''{'') (\<lambda>d. Inl (Err ''unexpected end of JSON input'')) ''m.json''
       = Inl (Err ''parse manifest m.json: unexpected end of JSON input'')
   \<and> LoadManifest (\<lambda>p. Inr ''{}'')
        (\<lambda>d. Inr \<lparr>Name = [], Description = [], Skills = [], Command = [], Args = [], Dir = []\<rparr>)
        ''m.json''
       = Inl (Err ''invalid manifest m.json: name is required'')"
proof -
  let ?ok = "\<lparr>Name = ''s1'', Description = [], Skills = [''echo''], Command = ''./stub'',
             Args = [], Dir = ''.''\<rparr>"
  let ?zero = "\<lparr>Name = [], Description = [], Skills = [], Command = [], Args = [], Dir = []\<rparr>"
  have v: "Validate ?zero = Some (Err ''name is required'')" by (simp add: Validate_def)
  from load_manifest_errors [of ?ok] have 1: "Validate ?ok = None" by simp
  from load_manifest_errors [of ?ok "\<lambda>p. Inl (Err ''no such file'')" "''m.json''" "Err ''no such file''"
      "\<lambda>d. Inl (Err ''unused'')"]
  have 2: "LoadManifest (\<lambda>p. Inl (Err ''no such file'')) (\<lambda>d. Inl (Err ''unused'')) ''m.json''
       = Inl (Err ''read manifest m.json: no such file'')" by simp
  from load_manifest_errors [of ?ok "\<lambda>p. Inr ''{''" "''m.json''" "Err ''unexpected end of JSON input''"
      "\<lambda>d. Inl (Err ''unexpected end of JSON input'')" "''{''"]
  have 3: "LoadManifest (\<lambda>p. Inr ''{'') (\<lambda>d. Inl (Err ''unexpected end of JSON input'')) ''m.json''
       = Inl (Err ''parse manifest m.json: unexpected end of JSON input'')" by simp
  from load_manifest_errors [of ?zero "\<lambda>p. Inr ''{}''" "''m.json''" "Err ''name is required''"
      "\<lambda>d. Inr ?zero" "''{}''"] v
  have 4: "LoadManifest (\<lambda>p. Inr ''{}'') (\<lambda>d. Inr ?zero) ''m.json''
       = Inl (Err ''invalid manifest m.json: name is required'')" by simp
  from 1 2 3 4 show ?thesis by simp
qed

text \<open>The claim as it stands fails for \<open>dir\<close>: a manifest without it is valid and loads.\<close>

theorem validate_accepts_missing_dir:
  "Dir \<lparr>Name = ''s1'', Description = [], Skills = [''echo''], Command = ''./stub'', Args = [], Dir = []\<rparr> = []
   \<and> Validate \<lparr>Name = ''s1'', Description = [], Skills = [''echo''], Command = ''./stub'',
               Args = [], Dir = []\<rparr> = None
   \<and> LoadManifest (\<lambda>p. Inr ''{...}'')
        (\<lambda>d. Inr \<lparr>Name = ''s1'', Description = [], Skills = [''echo''], Command = ''./stub'',
                    Args = [], Dir = []\<rparr>) ''m.json''
       = Inr \<lparr>Name = ''s1'', Description = [], Skills = [''echo''], Command = ''./stub'', Args = [], Dir = []\<rparr>"
  by (simp add: Validate_def LoadManifest_def)

section \<open>Claims about the client and the runner\<close>

lemma RecvAllFrom_stream:
  "RecvAllFrom acc (evs, e) = (acc @ evs, if e = io_EOF then None else Some e)"
proof (induction evs arbitrary: acc)
  case Nil
  show ?case by (subst RecvAllFrom.simps) simp
next
  case (Cons ev evs)
  show ?case by (subst RecvAllFrom.simps) (simp add: Cons.IH)
qed

text \<open>
  C10.  \<open>RecvAll\<close> returns all events of the stream, in order, and no error when the
  stream ends normally (with \<open>io_EOF\<close>); when the stream ends with any other error after
  some events, it returns those events and that error.  \<open>Execute\<close> on a running runner
  whose stream was opened returns exactly what \<open>RecvAll\<close> returns.
\<close>

theorem recv_all_collects:
  "RecvAll (evs, io_EOF) = (evs, None)
   \<and> (e \<noteq> io_EOF \<longrightarrow> RecvAll (evs, e) = (evs, Some e))
   \<and> (state r = StateRunning \<and> client r \<noteq> None \<longrightarrow>
        Execute r (Inr (evs, io_EOF)) = (r, evs, None)
        \<and> (e \<noteq> io_EOF \<longrightarrow> Execute r (Inr (evs, e)) = (r, evs, Some e)))"
  by (simp add: RecvAll_def RecvAllFrom_stream Execute_def)

theorem recv_all_collects_witness:
  "RecvAll ([\<lparr>ev_TaskId = ''t1'', ev_Type = ''progress'', ev_Payload = ''p''\<rparr>], Err ''connection reset'')
     = ([\<lparr>ev_TaskId = ''t1'', ev_Type = ''progress'', ev_Payload = ''p''\<rparr>], Some (Err ''connection reset''))
   \<and> Execute ((NewRunner stub_manifest ''/srv'')\<lparr>state := StateRunning, client := Some 1, port := 45001\<rparr>)
       (Inr ([\<lparr>ev_TaskId = ''t1'', ev_Type = ''progress'', ev_Payload = ''p''\<rparr>,
              \<lparr>ev_TaskId = ''t1'', ev_Type = ''result'', ev_Payload = ''done''\<rparr>], io_EOF))
     = ((NewRunner stub_manifest ''/srv'')\<lparr>state := StateRunning, client := Some 1, port := 45001\<rparr>,
        [\<lparr>ev_TaskId = ''t1'', ev_Type = ''progress'', ev_Payload = ''p''\<rparr>,
         \<lparr>ev_TaskId = ''t1'', ev_Type = ''result'', ev_Payload = ''done''\<rparr>], None)"
proof -
  let ?p = "\<lparr>ev_TaskId = ''t1'', ev_Type = ''progress'', ev_Payload = ''p''\<rparr>"
  let ?d = "\<lparr>ev_TaskId = ''t1'', ev_Type = ''result'', ev_Payload = ''done''\<rparr>"
  let ?r = "(NewRunner stub_manifest ''/srv'')\<lparr>state := StateRunning, client := Some 1, port := 45001\<rparr>"
  have e: "Err ''connection reset'' \<noteq> io_EOF" by simp
  have r: "state ?r = StateRunning \<and> client ?r \<noteq> None" by simp
  from recv_all_collects [of "[?p]" "Err ''connection reset''" ?r] e
  have 1: "RecvAll ([?p], Err ''connection reset'') = ([?p], Some (Err ''connection reset''))"
    by blast
  from recv_all_collects [of "[?p, ?d]" "Err ''connection reset''" ?r] r
  have 2: "Execute ?r (Inr ([?p, ?d], io_EOF)) = (?r, [?p, ?d], None)"
    by blast
  from 1 2 show ?thesis by blast
qed

text \<open>
  C7.  On a runner that is not running, or that has no client, \<open>Execute\<close> and \<open>Health\<close>
  return the not-running error and leave the runner as it was: state, port, client and
  error are those of before.
\<close>

theorem not_running_rejected:
  "state r \<noteq> StateRunning \<or> client r = None \<longrightarrow>
     Execute r opened
       = (r, [], Some (Err (''agent '' @ Name (manifest r) @ '' is not running (state: ''
                              @ State_string (state r) @ '')'')))
     \<and> Health r reply = (r, Inl (Err (''agent '' @ Name (manifest r) @ '' is not running'')))"
  by (simp add: Execute_def Health_def)


theorem not_running_rejected_witness:
  "Execute (NewRunner stub_manifest ''/srv'') (Inr ([], io_EOF))
     = (NewRunner stub_manifest ''/srv'', [], Some (Err ''agent s1 is not running (state: stopped)''))
   \<and> Health (NewRunner stub_manifest ''/srv'') (Inr \<lparr>hr_Status = ''ok'', hr_AgentName = ''s1''\<rparr>)
     = (NewRunner stub_manifest ''/srv'', Inl (Err ''agent s1 is not running''))"
proof -
  let ?r = "NewRunner stub_manifest ''/srv''"
  have h: "state ?r \<noteq> StateRunning \<or> client ?r = None" by (simp add: NewRunner_def)
  have n: "Name (manifest ?r) = ''s1''" "State_string (state ?r) = ''stopped''"
    by (simp_all add: NewRunner_def stub_manifest_def)
  from not_running_rejected [of ?r "Inr ([], io_EOF)" "Inr \<lparr>hr_Status = ''ok'', hr_AgentName = ''s1''\<rparr>"] h
  show ?thesis unfolding n by simp
qed

subsection \<open>The handshake\<close>

lemmas sscanf_eval = Sscanf_port_def HasPrefix_def scan_int_def is_digit_def is_blank_def Let_def
  MaxScanTokenSize_def dropCR_def SkipSpace.simps space_size_def space_runes_def

lemma Sscanf_port_45001: "Sscanf_port ''AGENT_PORT=45001'' = Some 45001"
  by (simp add: sscanf_eval)

lemma Sscanf_port_0: "Sscanf_port ''AGENT_PORT=0'' = Some 0"
  by (simp add: sscanf_eval)

text \<open>Trailing text is left unread, a sign is read, white space of Unicode is skipped,
  and a number beyond 64 bits is an error of \<^verbatim>\<open>Sscanf\<close>, so the line is passed over like
  any other.\<close>

lemma Sscanf_port_examples:
  "Sscanf_port ''AGENT_PORT=12abc'' = Some 12"
  "Sscanf_port ''AGENT_PORT= -12'' = Some (- 12)"
  "Sscanf_port ''AGENT_PORT=99999999999999999999'' = None"
  "Sscanf_port ''AGENT_PORT='' = None"
  "Sscanf_port ''listening'' = None"
  "Sscanf_port (''AGENT_PORT='' @ [CHR 0xC2, CHR 0xA0, CHR 0x09, CHR 0xE2, CHR 0x80, CHR 0x8A] @ ''+7;'') = Some 7"
  by (simp_all add: sscanf_eval)

lemma long_line_facts:
  "length long_line = 65536" "take 11 long_line = ''xxxxxxxxxxx''"
  "\<not> HasPrefix long_line ''AGENT_PORT=''"
proof -
  show "length long_line = 65536" unfolding long_line_def by (simp only: length_replicate)
  have "take 11 long_line = replicate 11 (CHR ''x'')"
    unfolding long_line_def by (simp only: take_replicate) simp
  then show t: "take 11 long_line = ''xxxxxxxxxxx''"
    by (simp add: numeral_eq_Suc)
  have "length ''AGENT_PORT='' = 11" by simp
  then have "take (length ''AGENT_PORT='') long_line = take 11 long_line"
    by (simp only:)
  with t show "\<not> HasPrefix long_line ''AGENT_PORT=''"
    unfolding HasPrefix_def by (simp only:) simp
qed

lemma await_port_skip:
  "\<forall>l\<in>set pre. length l < MaxScanTokenSize
        \<and> \<not> (HasPrefix (dropCR l) ''AGENT_PORT='' \<and> scan (dropCR l) \<noteq> None)
     \<Longrightarrow> await_port scan (map Line pre @ rest) = await_port scan rest"
  by (induction pre) (auto split: option.splits)

lemma Sscanf_port_prefix: "\<not> HasPrefix l ''AGENT_PORT='' \<Longrightarrow> Sscanf_port l = None"
  by (simp add: Sscanf_port_def)

lemma await_port_Sscanf_skip:
  "\<forall>l\<in>set pre. length l < MaxScanTokenSize \<and> Sscanf_port (dropCR l) = None
     \<Longrightarrow> await_port Sscanf_port (map Line pre @ rest) = await_port Sscanf_port rest"
  by (rule await_port_skip) simp

lemma await_port_Sscanf_match:
  "length line < MaxScanTokenSize \<Longrightarrow> Sscanf_port (dropCR line) = Some p
     \<Longrightarrow> await_port Sscanf_port (Line line # rest) = Inr p"
  using Sscanf_port_prefix [of "dropCR line"] by auto

lemma find_SomeD: "find P xs = Some w \<Longrightarrow> w \<in> set xs \<and> P w"
  by (induction xs) (auto split: if_splits)

lemma space_size_blank: "is_blank c \<Longrightarrow> space_size (c # t) = 1"
  unfolding is_blank_def
  by (elim insertE emptyE) (simp_all add: space_size_def space_runes_def HasPrefix_def)

lemma space_size_head:
  assumes "space_size (c # t) \<noteq> 0"
  shows "c \<in> {CHR 0x09, CHR 0x0B, CHR 0x0C, CHR 0x0D, CHR 0x20, CHR 0xC2, CHR 0xE1, CHR 0xE2, CHR 0xE3}"
proof -
  from assms obtain w where "find (HasPrefix (c # t)) space_runes = Some w"
    by (auto simp: space_size_def split: option.splits)
  then have w: "w \<in> set space_runes" and p: "HasPrefix (c # t) w"
    by (auto dest: find_SomeD)
  from w have "w \<noteq> [] \<and> hd w \<in> {CHR 0x09, CHR 0x0B, CHR 0x0C, CHR 0x0D, CHR 0x20, CHR 0xC2, CHR 0xE1, CHR 0xE2, CHR 0xE3}"
    unfolding space_runes_def set_simps by (elim insertE emptyE) simp_all
  moreover from p have "w \<noteq> [] \<longrightarrow> hd w = c"
    by (cases w) (auto simp: HasPrefix_def)
  ultimately show ?thesis by simp
qed

lemma space_size_no_space:
  "s = [] \<or> is_digit (hd s) \<or> hd s = CHR ''+'' \<or> hd s = CHR ''-'' \<Longrightarrow> space_size s = 0"
proof (cases s)
  case Nil
  then show ?thesis by (simp add: space_size_Nil)
next
  case (Cons c t)
  assume "s = [] \<or> is_digit (hd s) \<or> hd s = CHR ''+'' \<or> hd s = CHR ''-''"
  with Cons have c: "is_digit c \<or> c = CHR ''+'' \<or> c = CHR ''-''" by simp
  have "c \<notin> {CHR 0x09, CHR 0x0B, CHR 0x0C, CHR 0x0D, CHR 0x20, CHR 0xC2, CHR 0xE1, CHR 0xE2, CHR 0xE3}"
    using c by (auto simp: is_digit_def)
  with space_size_head [of c t] show ?thesis unfolding Cons by blast
qed

lemma SkipSpace_blanks:
  "\<forall>c\<in>set bl. is_blank c \<Longrightarrow> space_size x = 0 \<Longrightarrow> SkipSpace (bl @ x) = x"
proof (induction bl)
  case Nil
  then show ?case by (simp add: SkipSpace.simps)
next
  case (Cons b bl)
  then have "space_size (b # bl @ x) = 1" by (simp add: space_size_blank)
  then have "SkipSpace ((b # bl) @ x) = SkipSpace (bl @ x)"
    by (subst SkipSpace.simps) simp
  with Cons show ?case by simp
qed

lemma scan_int_digits:
  assumes "ds \<noteq> []" "\<forall>c\<in>set ds. is_digit c" "case after of [] \<Rightarrow> True | c # cs \<Rightarrow> \<not> is_digit c"
  shows "scan_int (ds @ after) = (if digits_value 0 ds < 2 ^ 63 then Some (int (digits_value 0 ds)) else None)"
    and "scan_int (CHR ''+'' # ds @ after) = (if digits_value 0 ds < 2 ^ 63 then Some (int (digits_value 0 ds)) else None)"
    and "scan_int (CHR ''-'' # ds @ after) = (if digits_value 0 ds \<le> 2 ^ 63 then Some (- int (digits_value 0 ds)) else None)"
proof -
  obtain c cs where ds: "ds = c # cs" using assms(1) by (cases ds) auto
  with assms(2) have "is_digit c" by simp
  then have ns: "c \<noteq> CHR ''-''" "c \<noteq> CHR ''+''" by (auto simp: is_digit_def)
  have "takeWhile is_digit after = []" using assms(3) by (cases after) auto
  then have tw: "takeWhile is_digit (ds @ after) = ds"
    using assms(2) by (simp add: takeWhile_append2)
  show "scan_int (ds @ after) = (if digits_value 0 ds < 2 ^ 63 then Some (int (digits_value 0 ds)) else None)"
    using tw ns assms(1) unfolding scan_int_def ds by (simp add: Let_def)
  show "scan_int (CHR ''+'' # ds @ after) = (if digits_value 0 ds < 2 ^ 63 then Some (int (digits_value 0 ds)) else None)"
    using tw assms(1) unfolding scan_int_def by (simp add: Let_def)
  show "scan_int (CHR ''-'' # ds @ after) = (if digits_value 0 ds \<le> 2 ^ 63 then Some (- int (digits_value 0 ds)) else None)"
    using tw assms(1) unfolding scan_int_def by (simp add: Let_def)
qed

lemma Sscanf_port_grammar:
  assumes "\<forall>c\<in>set bl. is_blank c" "ds \<noteq> []" "\<forall>c\<in>set ds. is_digit c"
    "case after of [] \<Rightarrow> True | c # cs \<Rightarrow> \<not> is_digit c"
  shows "Sscanf_port (''AGENT_PORT='' @ bl @ ds @ after)
           = (if digits_value 0 ds < 2 ^ 63 then Some (int (digits_value 0 ds)) else None)"
    and "Sscanf_port (''AGENT_PORT='' @ bl @ CHR ''+'' # ds @ after)
           = (if digits_value 0 ds < 2 ^ 63 then Some (int (digits_value 0 ds)) else None)"
    and "Sscanf_port (''AGENT_PORT='' @ bl @ CHR ''-'' # ds @ after)
           = (if digits_value 0 ds \<le> 2 ^ 63 then Some (- int (digits_value 0 ds)) else None)"
proof -
  have "is_digit (hd ds)" using assms(2,3) by (cases ds) auto
  then have "space_size (ds @ after) = 0"
    using assms(2) by (intro space_size_no_space) simp
  then have d1: "SkipSpace (bl @ ds @ after) = ds @ after"
    using assms(1) by (rule SkipSpace_blanks [rotated])
  have d2: "SkipSpace (bl @ CHR ''+'' # ds @ after) = CHR ''+'' # ds @ after"
    "SkipSpace (bl @ CHR ''-'' # ds @ after) = CHR ''-'' # ds @ after"
    using assms(1) by (simp_all add: SkipSpace_blanks space_size_no_space)
  show "Sscanf_port (''AGENT_PORT='' @ bl @ ds @ after)
           = (if digits_value 0 ds < 2 ^ 63 then Some (int (digits_value 0 ds)) else None)"
    using scan_int_digits(1) [OF assms(2,3,4)] by (simp add: Sscanf_port_def HasPrefix_def d1)
  show "Sscanf_port (''AGENT_PORT='' @ bl @ CHR ''+'' # ds @ after)
           = (if digits_value 0 ds < 2 ^ 63 then Some (int (digits_value 0 ds)) else None)"
    using scan_int_digits(2) [OF assms(2,3,4)] by (simp add: Sscanf_port_def HasPrefix_def d2)
  show "Sscanf_port (''AGENT_PORT='' @ bl @ CHR ''-'' # ds @ after)
           = (if digits_value 0 ds \<le> 2 ^ 63 then Some (- int (digits_value 0 ds)) else None)"
    using scan_int_digits(3) [OF assms(2,3,4)] by (simp add: Sscanf_port_def HasPrefix_def d2)
qed

text \<open>Whatever \<open>Sscanf\<close> accepts has this form.\<close>

lemma scan_int_parts:
  assumes "scan_int s = Some q"
  shows "\<exists>sg ds after. s = sg @ ds @ after \<and> (sg = [] \<or> sg = ''+'' \<or> sg = ''-'') \<and> ds \<noteq> []
           \<and> (\<forall>c\<in>set ds. is_digit c)
           \<and> q = (if sg = ''-'' then - int (digits_value 0 ds) else int (digits_value 0 ds))
           \<and> - (2 ^ 63) \<le> q \<and> q < 2 ^ 63"
proof -
  define sg where "sg = (case s of c # t \<Rightarrow> if c = CHR ''-'' \<or> c = CHR ''+'' then [c] else [] | [] \<Rightarrow> [])"
  define s1 where "s1 = (case s of c # t \<Rightarrow> if c = CHR ''-'' \<or> c = CHR ''+'' then t else s | [] \<Rightarrow> s)"
  define ds where "ds = takeWhile is_digit s1"
  have s: "s = sg @ ds @ dropWhile is_digit s1"
    by (cases s) (auto simp: sg_def s1_def ds_def)
  have sgc: "sg = [] \<or> sg = ''+'' \<or> sg = ''-''"
    by (cases s) (auto simp: sg_def)
  have neg: "(case s of c # t \<Rightarrow> c = CHR ''-'' | [] \<Rightarrow> False) = (sg = ''-'')"
    by (cases s) (auto simp: sg_def)
  have dig: "\<forall>c\<in>set ds. is_digit c"
    unfolding ds_def by (auto dest: set_takeWhileD)
  from assms have ne: "ds \<noteq> []"
    and q: "q = (if sg = ''-'' then - int (digits_value 0 ds) else int (digits_value 0 ds))"
    and r: "- (2 ^ 63) \<le> q \<and> q < 2 ^ 63"
    unfolding scan_int_def Let_def neg s1_def [symmetric] ds_def [symmetric]
    by (auto split: if_splits)
  from s sgc ne dig q r show ?thesis by blast
qed


lemma exited_runner:
  "await_port scan evs = Inl e \<Longrightarrow>
     Start_handshake scan r evs = (r\<lparr>state := StateFailed, err := Some e\<rparr>, Some e)"
  by (simp add: Start_handshake_def setFailed_def)

lemma exited_Start:
  "await_port scan evs = Inl e \<Longrightarrow> state r \<noteq> StateRunning \<and> state r \<noteq> StateStarting \<Longrightarrow>
     Start scan r Started evs dial
       = (r\<lparr>state := StateFailed, err := Some e, done_ch := Some Open, cancel := Some ()\<rparr>, Some e)"
  by (simp add: Start_def Start_lock_def Start_handshake_def setFailed_def)

lemma await_port_too_long:
  "MaxScanTokenSize \<le> length line \<Longrightarrow>
     await_port scan (Line line # rest) = Inl (Err ''agent exited without printing AGENT_PORT'')"
  by simp

text \<open>
  C6 (amended).  A line matches when it is shorter than 64 KiB and, after a carriage
  return at its end is dropped, \<^verbatim>\<open>Sscanf\<close> reads a number from it: the line starts with
  \<^verbatim>\<open>AGENT_PORT=\<close>, then come white space (possibly none), an optional sign and one or
  more decimal digits that write a number of 64 bits; what follows the digits is not
  looked at.  The handshake gives the port of the first matching line, when every line
  before it is shorter than 64 KiB and does not match.  When the output ends before a
  matching line, or a line of 64 KiB or more comes before one, \<^verbatim>\<open>Start\<close> returns the
  error "agent exited without printing AGENT_PORT" and the runner is Failed; when the
  15 second timer fires before a matching line, \<^verbatim>\<open>Start\<close> returns "timeout waiting for
  AGENT_PORT" and the runner is Failed.
\<close>

theorem handshake_first_match:
  "(\<not> HasPrefix l ''AGENT_PORT='' \<longrightarrow> Sscanf_port l = None)
   \<and> ((\<forall>c\<in>set bl. is_blank c) \<and> ds \<noteq> [] \<and> (\<forall>c\<in>set ds. is_digit c)
        \<and> (case after of [] \<Rightarrow> True | c # cs \<Rightarrow> \<not> is_digit c) \<longrightarrow>
        Sscanf_port (''AGENT_PORT='' @ bl @ ds @ after)
          = (if digits_value 0 ds < 2 ^ 63 then Some (int (digits_value 0 ds)) else None)
        \<and> Sscanf_port (''AGENT_PORT='' @ bl @ CHR ''+'' # ds @ after)
          = (if digits_value 0 ds < 2 ^ 63 then Some (int (digits_value 0 ds)) else None)
        \<and> Sscanf_port (''AGENT_PORT='' @ bl @ CHR ''-'' # ds @ after)
          = (if digits_value 0 ds \<le> 2 ^ 63 then Some (- int (digits_value 0 ds)) else None))
   \<and> (Sscanf_port l = Some q \<longrightarrow>
        HasPrefix l ''AGENT_PORT=''
        \<and> (\<exists>sg ds' after'. SkipSpace (drop 11 l) = sg @ ds' @ after'
              \<and> (sg = [] \<or> sg = ''+'' \<or> sg = ''-'') \<and> ds' \<noteq> [] \<and> (\<forall>c\<in>set ds'. is_digit c)
              \<and> q = (if sg = ''-'' then - int (digits_value 0 ds') else int (digits_value 0 ds'))
              \<and> - (2 ^ 63) \<le> q \<and> q < 2 ^ 63))
   \<and> ((\<forall>l\<in>set pre. length l < MaxScanTokenSize \<and> Sscanf_port (dropCR l) = None) \<longrightarrow>
        (length line < MaxScanTokenSize \<and> Sscanf_port (dropCR line) = Some p \<longrightarrow>
           await_port Sscanf_port (map Line pre @ Line line # rest) = Inr p
           \<and> Start_handshake Sscanf_port r (map Line pre @ Line line # rest) = (r\<lparr>port := p\<rparr>, None))
        \<and> (MaxScanTokenSize \<le> length line \<longrightarrow>
             Start_handshake Sscanf_port r (map Line pre @ Line line # rest)
               = (r\<lparr>state := StateFailed, err := Some (Err ''agent exited without printing AGENT_PORT'')\<rparr>,
                  Some (Err ''agent exited without printing AGENT_PORT'')))
        \<and> Start_handshake Sscanf_port r (map Line pre)
            = (r\<lparr>state := StateFailed, err := Some (Err ''agent exited without printing AGENT_PORT'')\<rparr>,
               Some (Err ''agent exited without printing AGENT_PORT''))
        \<and> Start_handshake Sscanf_port r (map Line pre @ Timer15s # rest)
            = (r\<lparr>state := StateFailed, err := Some (Err ''timeout waiting for AGENT_PORT'')\<rparr>,
               Some (Err ''timeout waiting for AGENT_PORT''))
        \<and> (state r \<noteq> StateRunning \<and> state r \<noteq> StateStarting \<longrightarrow>
             Start Sscanf_port r Started (map Line pre) dial
               = (r\<lparr>state := StateFailed, err := Some (Err ''agent exited without printing AGENT_PORT''),
                    done_ch := Some Open, cancel := Some ()\<rparr>,
                  Some (Err ''agent exited without printing AGENT_PORT''))
             \<and> Start Sscanf_port r Started (map Line pre @ Timer15s # rest) dial
               = (r\<lparr>state := StateFailed, err := Some (Err ''timeout waiting for AGENT_PORT''),
                    done_ch := Some Open, cancel := Some ()\<rparr>,
                  Some (Err ''timeout waiting for AGENT_PORT''))
             \<and> (MaxScanTokenSize \<le> length line \<longrightarrow>
                  Start Sscanf_port r Started (map Line pre @ Line line # rest) dial
                    = (r\<lparr>state := StateFailed, err := Some (Err ''agent exited without printing AGENT_PORT''),
                         done_ch := Some Open, cancel := Some ()\<rparr>,
                       Some (Err ''agent exited without printing AGENT_PORT'')))))"
proof -
  have g1: "\<not> HasPrefix l ''AGENT_PORT='' \<longrightarrow> Sscanf_port l = None"
    by (simp add: Sscanf_port_prefix)
  have g2: "(\<forall>c\<in>set bl. is_blank c) \<and> ds \<noteq> [] \<and> (\<forall>c\<in>set ds. is_digit c)
        \<and> (case after of [] \<Rightarrow> True | c # cs \<Rightarrow> \<not> is_digit c) \<longrightarrow>
        Sscanf_port (''AGENT_PORT='' @ bl @ ds @ after)
          = (if digits_value 0 ds < 2 ^ 63 then Some (int (digits_value 0 ds)) else None)
        \<and> Sscanf_port (''AGENT_PORT='' @ bl @ CHR ''+'' # ds @ after)
          = (if digits_value 0 ds < 2 ^ 63 then Some (int (digits_value 0 ds)) else None)
        \<and> Sscanf_port (''AGENT_PORT='' @ bl @ CHR ''-'' # ds @ after)
          = (if digits_value 0 ds \<le> 2 ^ 63 then Some (- int (digits_value 0 ds)) else None)"
    using Sscanf_port_grammar [of bl ds after] by blast
  have g3: "Sscanf_port l = Some q \<longrightarrow>
        HasPrefix l ''AGENT_PORT=''
        \<and> (\<exists>sg ds' after'. SkipSpace (drop 11 l) = sg @ ds' @ after'
              \<and> (sg = [] \<or> sg = ''+'' \<or> sg = ''-'') \<and> ds' \<noteq> [] \<and> (\<forall>c\<in>set ds'. is_digit c)
              \<and> q = (if sg = ''-'' then - int (digits_value 0 ds') else int (digits_value 0 ds'))
              \<and> - (2 ^ 63) \<le> q \<and> q < 2 ^ 63)"
  proof
    assume a: "Sscanf_port l = Some q"
    then have h: "HasPrefix l ''AGENT_PORT=''" using Sscanf_port_prefix [of l] by auto
    with a have "scan_int (SkipSpace (drop 11 l)) = Some q" by (simp add: Sscanf_port_def)
    from scan_int_parts [OF this] h
    show "HasPrefix l ''AGENT_PORT=''
        \<and> (\<exists>sg ds' after'. SkipSpace (drop 11 l) = sg @ ds' @ after'
              \<and> (sg = [] \<or> sg = ''+'' \<or> sg = ''-'') \<and> ds' \<noteq> [] \<and> (\<forall>c\<in>set ds'. is_digit c)
              \<and> q = (if sg = ''-'' then - int (digits_value 0 ds') else int (digits_value 0 ds'))
              \<and> - (2 ^ 63) \<le> q \<and> q < 2 ^ 63)"
      by simp
  qed
  have h: "(\<forall>l\<in>set pre. length l < MaxScanTokenSize \<and> Sscanf_port (dropCR l) = None) \<longrightarrow>
        (length line < MaxScanTokenSize \<and> Sscanf_port (dropCR line) = Some p \<longrightarrow>
           await_port Sscanf_port (map Line pre @ Line line # rest) = Inr p
           \<and> Start_handshake Sscanf_port r (map Line pre @ Line line # rest) = (r\<lparr>port := p\<rparr>, None))
        \<and> (MaxScanTokenSize \<le> length line \<longrightarrow>
             Start_handshake Sscanf_port r (map Line pre @ Line line # rest)
               = (r\<lparr>state := StateFailed, err := Some (Err ''agent exited without printing AGENT_PORT'')\<rparr>,
                  Some (Err ''agent exited without printing AGENT_PORT'')))
        \<and> Start_handshake Sscanf_port r (map Line pre)
            = (r\<lparr>state := StateFailed, err := Some (Err ''agent exited without printing AGENT_PORT'')\<rparr>,
               Some (Err ''agent exited without printing AGENT_PORT''))
        \<and> Start_handshake Sscanf_port r (map Line pre @ Timer15s # rest)
            = (r\<lparr>state := StateFailed, err := Some (Err ''timeout waiting for AGENT_PORT'')\<rparr>,
               Some (Err ''timeout waiting for AGENT_PORT''))
        \<and> (state r \<noteq> StateRunning \<and> state r \<noteq> StateStarting \<longrightarrow>
             Start Sscanf_port r Started (map Line pre) dial
               = (r\<lparr>state := StateFailed, err := Some (Err ''agent exited without printing AGENT_PORT''),
                    done_ch := Some Open, cancel := Some ()\<rparr>,
                  Some (Err ''agent exited without printing AGENT_PORT''))
             \<and> Start Sscanf_port r Started (map Line pre @ Timer15s # rest) dial
               = (r\<lparr>state := StateFailed, err := Some (Err ''timeout waiting for AGENT_PORT''),
                    done_ch := Some Open, cancel := Some ()\<rparr>,
                  Some (Err ''timeout waiting for AGENT_PORT''))
             \<and> (MaxScanTokenSize \<le> length line \<longrightarrow>
                  Start Sscanf_port r Started (map Line pre @ Line line # rest) dial
                    = (r\<lparr>state := StateFailed, err := Some (Err ''agent exited without printing AGENT_PORT''),
                         done_ch := Some Open, cancel := Some ()\<rparr>,
                       Some (Err ''agent exited without printing AGENT_PORT''))))"
  proof
    assume pre: "\<forall>l\<in>set pre. length l < MaxScanTokenSize \<and> Sscanf_port (dropCR l) = None"
    note skip = await_port_Sscanf_skip [OF pre]
    have e1: "await_port Sscanf_port (map Line pre) = Inl (Err ''agent exited without printing AGENT_PORT'')"
      using skip [of "[]"] by simp
    have e2: "await_port Sscanf_port (map Line pre @ Timer15s # rest) = Inl (Err ''timeout waiting for AGENT_PORT'')"
      using skip [of "Timer15s # rest"] by simp
    have e3: "MaxScanTokenSize \<le> length line \<Longrightarrow>
        await_port Sscanf_port (map Line pre @ Line line # rest) = Inl (Err ''agent exited without printing AGENT_PORT'')"
      using skip [of "Line line # rest"] by (simp only: await_port_too_long)
    have m: "length line < MaxScanTokenSize \<and> Sscanf_port (dropCR line) = Some p \<Longrightarrow>
        await_port Sscanf_port (map Line pre @ Line line # rest) = Inr p"
      using skip [of "Line line # rest"] by (simp only: await_port_Sscanf_match)
    have m': "length line < MaxScanTokenSize \<and> Sscanf_port (dropCR line) = Some p \<Longrightarrow>
        Start_handshake Sscanf_port r (map Line pre @ Line line # rest) = (r\<lparr>port := p\<rparr>, None)"
      using m by (simp add: Start_handshake_def)
    from m m' exited_runner [OF e1, of r] exited_runner [OF e2, of r] exited_runner [OF e3, of r]
      exited_Start [OF e1, of r dial] exited_Start [OF e2, of r dial] exited_Start [OF e3, of r dial]
    show "(length line < MaxScanTokenSize \<and> Sscanf_port (dropCR line) = Some p \<longrightarrow>
           await_port Sscanf_port (map Line pre @ Line line # rest) = Inr p
           \<and> Start_handshake Sscanf_port r (map Line pre @ Line line # rest) = (r\<lparr>port := p\<rparr>, None))
        \<and> (MaxScanTokenSize \<le> length line \<longrightarrow>
             Start_handshake Sscanf_port r (map Line pre @ Line line # rest)
               = (r\<lparr>state := StateFailed, err := Some (Err ''agent exited without printing AGENT_PORT'')\<rparr>,
                  Some (Err ''agent exited without printing AGENT_PORT'')))
        \<and> Start_handshake Sscanf_port r (map Line pre)
            = (r\<lparr>state := StateFailed, err := Some (Err ''agent exited without printing AGENT_PORT'')\<rparr>,
               Some (Err ''agent exited without printing AGENT_PORT''))
        \<and> Start_handshake Sscanf_port r (map Line pre @ Timer15s # rest)
            = (r\<lparr>state := StateFailed, err := Some (Err ''timeout waiting for AGENT_PORT'')\<rparr>,
               Some (Err ''timeout waiting for AGENT_PORT''))
        \<and> (state r \<noteq> StateRunning \<and> state r \<noteq> StateStarting \<longrightarrow>
             Start Sscanf_port r Started (map Line pre) dial
               = (r\<lparr>state := StateFailed, err := Some (Err ''agent exited without printing AGENT_PORT''),
                    done_ch := Some Open, cancel := Some ()\<rparr>,
                  Some (Err ''agent exited without printing AGENT_PORT''))
             \<and> Start Sscanf_port r Started (map Line pre @ Timer15s # rest) dial
               = (r\<lparr>state := StateFailed, err := Some (Err ''timeout waiting for AGENT_PORT''),
                    done_ch := Some Open, cancel := Some ()\<rparr>,
                  Some (Err ''timeout waiting for AGENT_PORT''))
             \<and> (MaxScanTokenSize \<le> length line \<longrightarrow>
                  Start Sscanf_port r Started (map Line pre @ Line line # rest) dial
                    = (r\<lparr>state := StateFailed, err := Some (Err ''agent exited without printing AGENT_PORT''),
                         done_ch := Some Open, cancel := Some ()\<rparr>,
                       Some (Err ''agent exited without printing AGENT_PORT''))))"
      by blast
  qed
  show ?thesis by (intro conjI) (fact g1, fact g2, fact g3, fact h)
qed


theorem handshake_first_match_witness:
  "await_port Sscanf_port
       [Line ''starting'', Line ''AGENT_PORT='', Line ''AGENT_PORT=45001'', Line ''AGENT_PORT=0'']
     = Inr 45001
   \<and> Start Sscanf_port (NewRunner stub_manifest ''/srv'') Started [Line ''starting'', Line ''AGENT_PORT='']
       (Inr 7)
     = ((NewRunner stub_manifest ''/srv'')
          \<lparr>state := StateFailed, err := Some (Err ''agent exited without printing AGENT_PORT''),
            done_ch := Some Open, cancel := Some ()\<rparr>,
        Some (Err ''agent exited without printing AGENT_PORT''))
   \<and> Start Sscanf_port (NewRunner stub_manifest ''/srv'') Started
        [Line ''starting'', Line ''AGENT_PORT='', Timer15s, Line ''AGENT_PORT=45001''] (Inr 7)
     = ((NewRunner stub_manifest ''/srv'')
          \<lparr>state := StateFailed, err := Some (Err ''timeout waiting for AGENT_PORT''),
            done_ch := Some Open, cancel := Some ()\<rparr>,
        Some (Err ''timeout waiting for AGENT_PORT''))
   \<and> Start Sscanf_port (NewRunner stub_manifest ''/srv'') Started
        [Line ''starting'', Line ''AGENT_PORT='', Line long_line, Line ''AGENT_PORT=45001''] (Inr 7)
     = ((NewRunner stub_manifest ''/srv'')
          \<lparr>state := StateFailed, err := Some (Err ''agent exited without printing AGENT_PORT''),
            done_ch := Some Open, cancel := Some ()\<rparr>,
        Some (Err ''agent exited without printing AGENT_PORT''))
   \<and> Sscanf_port ''AGENT_PORT= -12 tcp'' = Some (- 12)
   \<and> Sscanf_port ''PORT=45001'' = None"
proof -
  let ?pre = "[''starting'', ''AGENT_PORT='']"
  let ?r = "NewRunner stub_manifest ''/srv''"
  have pre: "\<forall>l\<in>set ?pre. length l < MaxScanTokenSize \<and> Sscanf_port (dropCR l) = None"
    by (simp add: sscanf_eval)
  have m: "length ''AGENT_PORT=45001'' < MaxScanTokenSize
      \<and> Sscanf_port (dropCR ''AGENT_PORT=45001'') = Some 45001"
    by (simp add: sscanf_eval)
  have lg: "MaxScanTokenSize \<le> length long_line"
    by (simp add: MaxScanTokenSize_def long_line_facts)
  have st: "state ?r \<noteq> StateRunning \<and> state ?r \<noteq> StateStarting"
    by (simp add: NewRunner_def)
  have np: "\<not> HasPrefix ''PORT=45001'' ''AGENT_PORT=''"
    by (simp add: HasPrefix_def)
  have g: "(\<forall>c\<in>set '' ''. is_blank c) \<and> ''12'' \<noteq> [] \<and> (\<forall>c\<in>set ''12''. is_digit c)
      \<and> (case '' tcp'' of [] \<Rightarrow> True | c # cs \<Rightarrow> \<not> is_digit c)"
    by (simp add: is_blank_def is_digit_def)
  have v: "digits_value 0 ''12'' = 12" by simp
  note t1 = handshake_first_match [where pre = ?pre and line = "''AGENT_PORT=45001''" and p = 45001
      and rest = "[Line ''AGENT_PORT=0'']" and r = ?r and dial = "Inr 7" and l = "''PORT=45001''"
      and bl = "'' ''" and ds = "''12''" and after = "'' tcp''"]
  note t2 = handshake_first_match [where pre = ?pre and line = long_line
      and rest = "[Line ''AGENT_PORT=45001'']" and r = ?r and dial = "Inr 7"]
  from t1 pre m
  have a: "await_port Sscanf_port
       [Line ''starting'', Line ''AGENT_PORT='', Line ''AGENT_PORT=45001'', Line ''AGENT_PORT=0'']
     = Inr 45001"
    by simp
  from t1 pre st
  have b: "Start Sscanf_port ?r Started [Line ''starting'', Line ''AGENT_PORT=''] (Inr 7)
     = (?r\<lparr>state := StateFailed, err := Some (Err ''agent exited without printing AGENT_PORT''),
            done_ch := Some Open, cancel := Some ()\<rparr>,
        Some (Err ''agent exited without printing AGENT_PORT''))"
    by simp
  from t2 pre st
  have c: "Start Sscanf_port ?r Started
        [Line ''starting'', Line ''AGENT_PORT='', Timer15s, Line ''AGENT_PORT=45001''] (Inr 7)
     = (?r\<lparr>state := StateFailed, err := Some (Err ''timeout waiting for AGENT_PORT''),
            done_ch := Some Open, cancel := Some ()\<rparr>,
        Some (Err ''timeout waiting for AGENT_PORT''))"
    by simp
  from t2 pre st lg
  have d: "Start Sscanf_port ?r Started
        [Line ''starting'', Line ''AGENT_PORT='', Line long_line, Line ''AGENT_PORT=45001''] (Inr 7)
     = (?r\<lparr>state := StateFailed, err := Some (Err ''agent exited without printing AGENT_PORT''),
            done_ch := Some Open, cancel := Some ()\<rparr>,
        Some (Err ''agent exited without printing AGENT_PORT''))"
    by simp
  from t1 g v have e: "Sscanf_port ''AGENT_PORT= -12 tcp'' = Some (- 12)"
    by simp
  from t1 np have f: "Sscanf_port ''PORT=45001'' = None"
    by simp
  from a b c d e f show ?thesis by (intro conjI)
qed

text \<open>
  The claim as it stands fails three ways.  A line that goes on after its digits is taken
  for the port line, where the specification passes over it; a line of digits that write
  no 64-bit number is passed over, where the specification takes it; and after a line of
  64 KiB the port line is never read.
\<close>

theorem handshake_differs_from_exact_match:
  "await_port Sscanf_port [Line ''AGENT_PORT=12abc'', Line ''AGENT_PORT=45001''] = Inr 12
   \<and> spec_await_port [Line ''AGENT_PORT=12abc'', Line ''AGENT_PORT=45001''] = Inr 45001
   \<and> await_port Sscanf_port [Line ''AGENT_PORT=99999999999999999999'', Line ''AGENT_PORT=45001'']
       = Inr 45001
   \<and> spec_await_port [Line ''AGENT_PORT=99999999999999999999'', Line ''AGENT_PORT=45001'']
       = Inr 99999999999999999999
   \<and> await_port Sscanf_port [Line long_line, Line ''AGENT_PORT=45001'']
       = Inl (Err ''agent exited without printing AGENT_PORT'')
   \<and> spec_await_port [Line long_line, Line ''AGENT_PORT=45001''] = Inr 45001"
proof -
  have 1: "await_port Sscanf_port [Line ''AGENT_PORT=12abc'', Line ''AGENT_PORT=45001''] = Inr 12"
    by (simp add: sscanf_eval)
  have 2: "spec_await_port [Line ''AGENT_PORT=12abc'', Line ''AGENT_PORT=45001''] = Inr 45001"
    by (simp add: spec_port_line_def HasPrefix_def is_digit_def)
  have 3: "await_port Sscanf_port [Line ''AGENT_PORT=99999999999999999999'', Line ''AGENT_PORT=45001'']
       = Inr 45001"
    by (simp add: sscanf_eval)
  have 4: "spec_await_port [Line ''AGENT_PORT=99999999999999999999'', Line ''AGENT_PORT=45001'']
       = Inr 99999999999999999999"
    by (simp add: spec_port_line_def HasPrefix_def is_digit_def)
  have 5: "await_port Sscanf_port [Line long_line, Line ''AGENT_PORT=45001'']
       = Inl (Err ''agent exited without printing AGENT_PORT'')"
    by (simp add: MaxScanTokenSize_def long_line_facts)
  have "spec_port_line long_line = None"
    by (simp add: spec_port_line_def long_line_facts)
  then have 6: "spec_await_port [Line long_line, Line ''AGENT_PORT=45001''] = Inr 45001"
    by (simp add: spec_port_line_def HasPrefix_def is_digit_def)
  from 1 2 3 4 5 6 show ?thesis by blast
qed

subsection \<open>Runs of the runner\<close>

lemmas run_eval = initial_def NewRunner_def stub_manifest_def Start_lock_def Start_handshake_def
  Start_connect_def Stop_def monitor_def Health_def setFailed_def Status_def HasPrefix_def
  MaxScanTokenSize_def dropCR_def

text \<open>A call of \<^verbatim>\<open>Start\<close> on a fresh runner, run alone, is \<open>Start\<close>.\<close>

lemma exec_start_actions:
  "map_option runner (exec scan (start_actions scan res evs dial) (initial m base))
     = Some (fst (Start scan (NewRunner m base) res evs dial))"
  by (cases res; cases "await_port scan evs"; cases dial)
    (simp_all add: Start_def initial_def NewRunner_def Start_lock_def Start_handshake_def
      Start_connect_def setFailed_def Let_def)

lemma monitor_state:
  "monitor r e = Some r' \<Longrightarrow> state r' = (if state r = StateRunning then StateFailed else state r)"
  by (auto simp: monitor_def Let_def split: option.splits chan.splits if_splits)

text \<open>
  C1.  The exit monitor writes Failed only when it finds the state Running, so right
  after \<open>Stop\<close> it leaves Stopped alone.  The other stages do not look at the state.  The
  failure paths of \<^verbatim>\<open>Start\<close> and of the health probe go through \<open>setFailed\<close>: a
  handshake that fails after \<open>Stop\<close> (the child was just killed, so its output ends) and
  a probe that began before \<open>Stop\<close> both overwrite Stopped with Failed.  And a call of
  \<^verbatim>\<open>Start\<close> that already holds its port when \<open>Stop\<close> runs goes on to write Running, after
  which the monitor of the killed child writes Failed.
\<close>

theorem failure_after_stop_writes_failed:
  "map_option (\<lambda>s. (state (runner s), err (runner s)))
     (exec Sscanf_port [CallStart, Spawn Started, CallStop] (initial stub_manifest ''/srv''))
     = Some (StateStopped, None)
   \<and> map_option (\<lambda>s. (state (runner s), err (runner s)))
       (exec Sscanf_port [CallStart, Spawn Started, CallStop, Handshake []] (initial stub_manifest ''/srv''))
     = Some (StateFailed, Some (Err ''agent exited without printing AGENT_PORT''))
   \<and> map_option (\<lambda>s. (state (runner s), err (runner s)))
       (exec Sscanf_port
          [CallStart, Spawn Started, Handshake [Line ''AGENT_PORT=45001''], Dial (Inr 7),
           ProbeBegin, CallStop, ProbeEnd (Inr \<lparr>hr_Status = ''ok'', hr_AgentName = ''s1''\<rparr>)]
          (initial stub_manifest ''/srv''))
     = Some (StateFailed, Some (Err ''agent s1 is not running''))
   \<and> map_option (\<lambda>s. (state (runner s), err (runner s)))
       (exec Sscanf_port
          [CallStart, Spawn Started, Handshake [Line ''AGENT_PORT=45001''], CallStop, Dial (Inr 7),
           ProcessExit (Some (Err ''signal: killed''))]
          (initial stub_manifest ''/srv''))
     = Some (StateFailed, Some (Err ''process exited unexpectedly: signal: killed''))"
  by (simp add: run_eval Sscanf_port_45001)

subsection \<open>Invariants of every run\<close>

lemmas step_defs = Start_lock_def Start_handshake_def Start_connect_def Stop_def monitor_def
  Health_def setFailed_def Let_def

lemma Start_spawn_cases:
  "Start_spawn r res = (r', ret) \<Longrightarrow>
     (ret \<noteq> None \<and> r' = r\<lparr>state := StateFailed, err := ret\<rparr>) \<or> (ret = None \<and> r' = r\<lparr>cancel := Some ()\<rparr>)"
  by (cases res) (auto simp: setFailed_def Let_def)

text \<open>A runner that is Running has a client.\<close>

lemma step_client:
  assumes "step scan a s = Some s'" "state (runner s) = StateRunning \<longrightarrow> client (runner s) \<noteq> None"
  shows "state (runner s') = StateRunning \<longrightarrow> client (runner s') \<noteq> None"
proof (cases a)
  case (Spawn res)
  with assms show ?thesis
    by (auto split: if_splits prod.splits option.splits dest!: Start_spawn_cases)
qed (use assms in \<open>auto simp: step_defs split: if_splits prod.splits option.splits sum.splits chan.splits\<close>)

lemma exec_client:
  "exec scan as s = Some s' \<Longrightarrow> (state (runner s) = StateRunning \<longrightarrow> client (runner s) \<noteq> None)
     \<Longrightarrow> state (runner s') = StateRunning \<longrightarrow> client (runner s') \<noteq> None"
proof (induction as arbitrary: s)
  case Nil
  then show ?case by simp
next
  case (Cons a as)
  from Cons.prems(1) obtain s1 where s1: "step scan a s = Some s1" "exec scan as s1 = Some s'"
    by (auto split: option.splits)
  from Cons.IH [OF s1(2) step_client [OF s1(1) Cons.prems(2)]] show ?case .
qed

text \<open>While the state is Starting no error is stored.\<close>

lemma step_starting:
  assumes "step scan a s = Some s'" "state (runner s) = StateStarting \<longrightarrow> err (runner s) = None"
  shows "state (runner s') = StateStarting \<longrightarrow> err (runner s') = None"
proof (cases a)
  case (Spawn res)
  with assms show ?thesis
    by (auto split: if_splits prod.splits option.splits dest!: Start_spawn_cases)
qed (use assms in \<open>auto simp: step_defs split: if_splits prod.splits option.splits sum.splits chan.splits\<close>)

lemma exec_starting:
  "exec scan as s = Some s' \<Longrightarrow> (state (runner s) = StateStarting \<longrightarrow> err (runner s) = None)
     \<Longrightarrow> state (runner s') = StateStarting \<longrightarrow> err (runner s') = None"
proof (induction as arbitrary: s)
  case Nil
  then show ?case by simp
next
  case (Cons a as)
  from Cons.prems(1) obtain s1 where s1: "step scan a s = Some s1" "exec scan as s1 = Some s'"
    by (auto split: option.splits)
  from Cons.IH [OF s1(2) step_starting [OF s1(1) Cons.prems(2)]] show ?case .
qed

text \<open>The port is written by a handshake that received one, and by nothing else.\<close>

lemma step_port:
  assumes "step scan a s = Some s'"
  shows "port (runner s') = port (runner s)
         \<or> (\<exists>evs. a = Handshake evs \<and> await_port scan evs = Inr (port (runner s')))"
proof (cases a)
  case (Spawn res)
  with assms show ?thesis
    by (auto split: if_splits prod.splits option.splits dest!: Start_spawn_cases)
qed (use assms in \<open>auto simp: step_defs split: if_splits prod.splits option.splits sum.splits chan.splits\<close>)

lemma exec_port:
  "exec scan as s = Some s' \<Longrightarrow>
     port (runner s') = port (runner s)
     \<or> (\<exists>evs. Handshake evs \<in> set as \<and> await_port scan evs = Inr (port (runner s')))"
proof (induction as arbitrary: s)
  case Nil
  then show ?case by simp
next
  case (Cons a as)
  from Cons.prems(1) obtain s1 where s1: "step scan a s = Some s1" "exec scan as s1 = Some s'"
    by (auto split: option.splits)
  from Cons.IH [OF s1(2)] step_port [OF s1(1)] show ?case by auto
qed

text \<open>A call of \<^verbatim>\<open>Start\<close> stands before the dial, or the runner is Running, only after a
  handshake of this run has stored its port.\<close>

lemma step_dialled:
  assumes "step scan a s = Some s'"
    "0 < at_dial s \<or> state (runner s) = StateRunning \<longrightarrow>
       (\<exists>evs. Handshake evs \<in> H \<and> await_port scan evs = Inr (port (runner s)))"
  shows "0 < at_dial s' \<or> state (runner s') = StateRunning \<longrightarrow>
       (\<exists>evs. Handshake evs \<in> insert a H \<and> await_port scan evs = Inr (port (runner s')))"
proof (cases a)
  case (Spawn res)
  with assms show ?thesis
    by (auto split: if_splits prod.splits option.splits dest!: Start_spawn_cases)
qed (use assms in \<open>auto simp: step_defs split: if_splits prod.splits option.splits sum.splits chan.splits\<close>)

lemma exec_dialled:
  "exec scan as s = Some s' \<Longrightarrow>
     (0 < at_dial s \<or> state (runner s) = StateRunning \<longrightarrow>
       (\<exists>evs. Handshake evs \<in> H \<and> await_port scan evs = Inr (port (runner s))))
     \<Longrightarrow> 0 < at_dial s' \<or> state (runner s') = StateRunning \<longrightarrow>
       (\<exists>evs. Handshake evs \<in> H \<union> set as \<and> await_port scan evs = Inr (port (runner s')))"
proof (induction as arbitrary: s H)
  case Nil
  then show ?case by simp
next
  case (Cons a as)
  from Cons.prems(1) obtain s1 where s1: "step scan a s = Some s1" "exec scan as s1 = Some s'"
    by (auto split: option.splits)
  from Cons.IH [OF s1(2) step_dialled [OF s1(1) Cons.prems(2)]] show ?case by simp
qed


lemma exec_append:
  "exec scan (as @ bs) s = (case exec scan as s of None \<Rightarrow> None | Some s' \<Rightarrow> exec scan bs s')"
  by (induction as arbitrary: s) (auto split: option.splits)

lemma step_handshake_port:
  "step scan (Handshake evs) s = Some s' \<Longrightarrow> await_port scan evs = Inr p \<Longrightarrow> port (runner s') = p"
  by (auto simp: Start_handshake_def split: if_splits)

text \<open>After a handshake that received a port, and none after it, the port is that one.\<close>

lemma exec_last_port:
  assumes "exec scan (as1 @ Handshake evs # as2) s0 = Some s" "await_port scan evs = Inr p"
    "\<forall>evs' q. Handshake evs' \<in> set as2 \<longrightarrow> await_port scan evs' \<noteq> Inr q"
  shows "port (runner s) = p"
proof -
  from assms(1) obtain s1 where s1: "exec scan as1 s0 = Some s1"
    and r: "exec scan (Handshake evs # as2) s1 = Some s"
    by (auto simp: exec_append split: option.splits)
  from r obtain s2 where s2: "step scan (Handshake evs) s1 = Some s2" and e: "exec scan as2 s2 = Some s"
    by (auto split: option.splits)
  from step_handshake_port [OF s2 assms(2)] have "port (runner s2) = p" .
  with exec_port [OF e] assms(3) show ?thesis by auto
qed

text \<open>A runner that is Failed holds an error.\<close>

lemma step_failed:
  assumes "step scan a s = Some s'" "state (runner s) = StateFailed \<longrightarrow> err (runner s) \<noteq> None"
  shows "state (runner s') = StateFailed \<longrightarrow> err (runner s') \<noteq> None"
proof (cases a)
  case (Spawn res)
  with assms show ?thesis
    by (auto split: if_splits prod.splits option.splits dest!: Start_spawn_cases)
qed (use assms in \<open>auto simp: step_defs split: if_splits prod.splits option.splits sum.splits chan.splits\<close>)

lemma exec_failed:
  "exec scan as s = Some s' \<Longrightarrow> (state (runner s) = StateFailed \<longrightarrow> err (runner s) \<noteq> None)
     \<Longrightarrow> state (runner s') = StateFailed \<longrightarrow> err (runner s') \<noteq> None"
proof (induction as arbitrary: s)
  case Nil
  then show ?case by simp
next
  case (Cons a as)
  from Cons.prems(1) obtain s1 where s1: "step scan a s = Some s1" "exec scan as s1 = Some s'"
    by (auto split: option.splits)
  from Cons.IH [OF s1(2) step_failed [OF s1(1) Cons.prems(2)]] show ?case .
qed

text \<open>The error is written by a step that leaves the runner Failed, and cleared by the
  first critical section of \<^verbatim>\<open>Start\<close>; no other step touches it.\<close>

lemma step_err:
  assumes "step scan a s = Some s'"
  shows "err (runner s') = err (runner s)
         \<or> (state (runner s') = StateFailed \<and> err (runner s') \<noteq> None)
         \<or> (a = CallStart \<and> state (runner s') = StateStarting \<and> err (runner s') = None)"
proof (cases a)
  case (Spawn res)
  with assms show ?thesis
    by (auto split: if_splits prod.splits option.splits dest!: Start_spawn_cases)
qed (use assms in \<open>auto simp: step_defs split: if_splits prod.splits option.splits sum.splits chan.splits\<close>)

lemma exec_err_origin:
  "exec scan as s0 = Some s \<Longrightarrow> err (runner s0) = None \<Longrightarrow> err (runner s) \<noteq> None \<Longrightarrow>
     \<exists>as1 as2 s1. as = as1 @ as2 \<and> exec scan as1 s0 = Some s1 \<and> state (runner s1) = StateFailed
        \<and> err (runner s1) = err (runner s)"
proof (induction as arbitrary: s rule: rev_induct)
  case Nil
  then show ?case by simp
next
  case (snoc a as)
  from snoc.prems(1) obtain s' where s': "exec scan as s0 = Some s'" and st: "step scan a s' = Some s"
    by (auto simp: exec_append split: option.splits)
  from step_err [OF st] snoc.prems(3)
  consider "err (runner s) = err (runner s')" | "state (runner s) = StateFailed" by auto
  then show ?case
  proof cases
    case 1
    with snoc.IH [OF s' snoc.prems(2)] snoc.prems(3)
    obtain as1 as2 s1 where "as = as1 @ as2" "exec scan as1 s0 = Some s1"
      "state (runner s1) = StateFailed" "err (runner s1) = err (runner s)"
      by auto
    then have "as @ [a] = as1 @ (as2 @ [a]) \<and> exec scan as1 s0 = Some s1
        \<and> state (runner s1) = StateFailed \<and> err (runner s1) = err (runner s)"
      by simp
    then show ?thesis by blast
  next
    case 2
    with snoc.prems(1) have "as @ [a] = (as @ [a]) @ [] \<and> exec scan (as @ [a]) s0 = Some s
        \<and> state (runner s) = StateFailed \<and> err (runner s) = err (runner s)"
      by simp
    then show ?thesis by blast
  qed
qed


lemma initial_facts:
  "state (runner (initial m base)) = StateStopped" "at_dial (initial m base) = 0"
  "port (runner (initial m base)) = 0" "err (runner (initial m base)) = None"
  by (simp_all add: initial_def NewRunner_def)

text \<open>
  C9 (amended).  In every state the runner reaches from \<open>NewRunner\<close>, under every
  interleaving of its goroutines: when the state is Running the client is not nil, and
  the port is the one a handshake of this run received.  The port is taken from the
  child's line as it is, so it is non-zero when every port the child advertised is
  non-zero.
\<close>

theorem running_has_client_and_handshake_port:
  "exec scan as (initial m base) = Some s \<and> state (runner s) = StateRunning \<longrightarrow>
     client (runner s) \<noteq> None
     \<and> (\<exists>evs. Handshake evs \<in> set as \<and> await_port scan evs = Inr (port (runner s)))
     \<and> ((\<forall>evs p. Handshake evs \<in> set as \<and> await_port scan evs = Inr p \<longrightarrow> p \<noteq> 0)
          \<longrightarrow> port (runner s) \<noteq> 0)"
proof (intro impI, elim conjE)
  assume e: "exec scan as (initial m base) = Some s" and r: "state (runner s) = StateRunning"
  have c: "client (runner s) \<noteq> None"
    using exec_client [OF e] r by (simp add: initial_facts)
  have p: "\<exists>evs. Handshake evs \<in> set as \<and> await_port scan evs = Inr (port (runner s))"
    using exec_dialled [OF e, of "{}"] r by (simp add: initial_facts)
  from c p show "client (runner s) \<noteq> None
     \<and> (\<exists>evs. Handshake evs \<in> set as \<and> await_port scan evs = Inr (port (runner s)))
     \<and> ((\<forall>evs p. Handshake evs \<in> set as \<and> await_port scan evs = Inr p \<longrightarrow> p \<noteq> 0)
          \<longrightarrow> port (runner s) \<noteq> 0)"
    by blast
qed

theorem running_has_client_and_handshake_port_witness:
  "\<exists>s. exec Sscanf_port
          [CallStart, Spawn Started, Handshake [Line ''AGENT_PORT=45001''], Dial (Inr 7)]
          (initial stub_manifest ''/srv'') = Some s
       \<and> state (runner s) = StateRunning \<and> client (runner s) \<noteq> None \<and> port (runner s) \<noteq> 0"
proof -
  let ?as = "[CallStart, Spawn Started, Handshake [Line ''AGENT_PORT=45001''], Dial (Inr 7)]"
  obtain s where s: "exec Sscanf_port ?as (initial stub_manifest ''/srv'') = Some s"
    and r: "state (runner s) = StateRunning"
    by (simp add: run_eval Sscanf_port_45001)
  have h: "\<forall>evs p. Handshake evs \<in> set ?as \<and> await_port Sscanf_port evs = Inr p \<longrightarrow> p \<noteq> 0"
    by (auto simp: HasPrefix_def MaxScanTokenSize_def dropCR_def Sscanf_port_45001)
  from running_has_client_and_handshake_port [of Sscanf_port ?as stub_manifest "''/srv''" s] s r h
  have "client (runner s) \<noteq> None \<and> port (runner s) \<noteq> 0" by blast
  with s r show ?thesis by blast
qed

text \<open>The claim as it stands fails for the port: the child may advertise port 0.\<close>

theorem running_with_port_zero:
  "map_option (\<lambda>s. (state (runner s), port (runner s), client (runner s)))
     (exec Sscanf_port [CallStart, Spawn Started, Handshake [Line ''AGENT_PORT=0''], Dial (Inr 7)]
        (initial stub_manifest ''/srv''))
   = Some (StateRunning, 0, Some 7)"
  by (simp add: run_eval Sscanf_port_0)

text \<open>
  C2 (amended).  The snapshot shows the stored port and error as they are.  In every
  state the runner reaches: while the state is Starting the error is empty (\<^verbatim>\<open>Start\<close>
  clears it), and the port is zero as long as no handshake of the run has received a
  port; after a handshake that received a port, the port shown is the one the last
  such handshake received, whatever happened since.  Only a handshake that receives a
  port changes the port shown, and the error shown changes only in a step that leaves
  the runner Failed or in the step of \<^verbatim>\<open>Start\<close> that enters Starting and empties it: so
  neither \<open>Stop\<close> nor a later \<^verbatim>\<open>Start\<close> resets the port, and \<open>Stop\<close> keeps the error.  A
  Failed runner holds an error, and an error that is shown was shown in a state of the
  run in which the runner was Failed.
\<close>

theorem status_snapshot:
  "exec scan as (initial m base) = Some s \<longrightarrow>
     (state (runner s) = StateStarting \<longrightarrow> st_Error (Status (runner s)) = [])
     \<and> ((\<forall>evs p. Handshake evs \<in> set as \<longrightarrow> await_port scan evs \<noteq> Inr p)
          \<longrightarrow> st_Port (Status (runner s)) = 0)
     \<and> st_Port (Status (Stop (runner s))) = st_Port (Status (runner s))
     \<and> st_Error (Status (Stop (runner s))) = st_Error (Status (runner s))
     \<and> (\<forall>r'. Start_lock (runner s) = Some r' \<longrightarrow>
           st_Error (Status r') = [] \<and> st_Port (Status r') = st_Port (Status (runner s)))
     \<and> (\<forall>as1 evs as2 p.
           as = as1 @ Handshake evs # as2 \<and> await_port scan evs = Inr p
           \<and> (\<forall>evs' q. Handshake evs' \<in> set as2 \<longrightarrow> await_port scan evs' \<noteq> Inr q)
           \<longrightarrow> st_Port (Status (runner s)) = p)
     \<and> (state (runner s) = StateFailed \<longrightarrow> err (runner s) \<noteq> None)
     \<and> (st_Error (Status (runner s)) \<noteq> [] \<longrightarrow>
           (\<exists>as1 as2 s1. as = as1 @ as2 \<and> exec scan as1 (initial m base) = Some s1
              \<and> state (runner s1) = StateFailed
              \<and> st_Error (Status (runner s1)) = st_Error (Status (runner s))))
     \<and> (\<forall>a s'. step scan a s = Some s' \<longrightarrow>
           (st_Port (Status (runner s')) = st_Port (Status (runner s))
            \<or> (\<exists>evs. a = Handshake evs \<and> await_port scan evs = Inr (st_Port (Status (runner s')))))
           \<and> (st_Error (Status (runner s')) = st_Error (Status (runner s))
              \<or> state (runner s') = StateFailed
              \<or> (a = CallStart \<and> state (runner s') = StateStarting
                  \<and> st_Error (Status (runner s')) = [])))"
proof
  assume e: "exec scan as (initial m base) = Some s"
  have a: "state (runner s) = StateStarting \<longrightarrow> st_Error (Status (runner s)) = []"
    using exec_starting [OF e] by (simp add: initial_facts Status_def)
  have b: "(\<forall>evs p. Handshake evs \<in> set as \<longrightarrow> await_port scan evs \<noteq> Inr p)
          \<longrightarrow> st_Port (Status (runner s)) = 0"
    using exec_port [OF e] by (auto simp: initial_facts Status_def)
  have c1: "st_Port (Status (Stop (runner s))) = st_Port (Status (runner s))"
    by (simp add: Status_def Stop_def)
  have c2: "st_Error (Status (Stop (runner s))) = st_Error (Status (runner s))"
    by (simp add: Status_def Stop_def)
  have d: "\<forall>r'. Start_lock (runner s) = Some r' \<longrightarrow>
           st_Error (Status r') = [] \<and> st_Port (Status r') = st_Port (Status (runner s))"
    by (auto simp: Status_def Start_lock_def split: if_splits)
  have f: "\<forall>as1 evs as2 p.
           as = as1 @ Handshake evs # as2 \<and> await_port scan evs = Inr p
           \<and> (\<forall>evs' q. Handshake evs' \<in> set as2 \<longrightarrow> await_port scan evs' \<noteq> Inr q)
           \<longrightarrow> st_Port (Status (runner s)) = p"
  proof (intro allI impI, elim conjE)
    fix as1 evs as2 p
    assume "as = as1 @ Handshake evs # as2" "await_port scan evs = Inr p"
      "\<forall>evs' q. Handshake evs' \<in> set as2 \<longrightarrow> await_port scan evs' \<noteq> Inr q"
    with e exec_last_port [of scan as1 evs as2 "initial m base" s p]
    show "st_Port (Status (runner s)) = p" by (simp add: Status_def)
  qed
  have g: "state (runner s) = StateFailed \<longrightarrow> err (runner s) \<noteq> None"
    using exec_failed [OF e] by (simp add: initial_facts)
  have h: "st_Error (Status (runner s)) \<noteq> [] \<longrightarrow>
           (\<exists>as1 as2 s1. as = as1 @ as2 \<and> exec scan as1 (initial m base) = Some s1
              \<and> state (runner s1) = StateFailed
              \<and> st_Error (Status (runner s1)) = st_Error (Status (runner s)))"
  proof
    assume "st_Error (Status (runner s)) \<noteq> []"
    then have "err (runner s) \<noteq> None" by (auto simp: Status_def split: option.splits)
    from exec_err_origin [OF e initial_facts(4) this]
    obtain as1 as2 s1 where o: "as = as1 @ as2" "exec scan as1 (initial m base) = Some s1"
      "state (runner s1) = StateFailed" "err (runner s1) = err (runner s)"
      by blast
    from o(4) have "st_Error (Status (runner s1)) = st_Error (Status (runner s))"
      by (simp add: Status_def)
    with o(1,2,3) show "\<exists>as1 as2 s1. as = as1 @ as2 \<and> exec scan as1 (initial m base) = Some s1
              \<and> state (runner s1) = StateFailed
              \<and> st_Error (Status (runner s1)) = st_Error (Status (runner s))"
      by blast
  qed
  have i: "\<forall>a s'. step scan a s = Some s' \<longrightarrow>
           (st_Port (Status (runner s')) = st_Port (Status (runner s))
            \<or> (\<exists>evs. a = Handshake evs \<and> await_port scan evs = Inr (st_Port (Status (runner s')))))
           \<and> (st_Error (Status (runner s')) = st_Error (Status (runner s))
              \<or> state (runner s') = StateFailed
              \<or> (a = CallStart \<and> state (runner s') = StateStarting
                  \<and> st_Error (Status (runner s')) = []))"
  proof (intro allI impI)
    fix a s'
    assume st: "step scan a s = Some s'"
    have p: "port (runner s') = st_Port (Status (runner s'))" "port (runner s) = st_Port (Status (runner s))"
      by (simp_all add: Status_def)
    have "err (runner s') = err (runner s) \<Longrightarrow> st_Error (Status (runner s')) = st_Error (Status (runner s))"
      "err (runner s') = None \<Longrightarrow> st_Error (Status (runner s')) = []"
      by (simp_all add: Status_def)
    with step_port [OF st] step_err [OF st]
    show "(st_Port (Status (runner s')) = st_Port (Status (runner s))
            \<or> (\<exists>evs. a = Handshake evs \<and> await_port scan evs = Inr (st_Port (Status (runner s')))))
           \<and> (st_Error (Status (runner s')) = st_Error (Status (runner s))
              \<or> state (runner s') = StateFailed
              \<or> (a = CallStart \<and> state (runner s') = StateStarting
                  \<and> st_Error (Status (runner s')) = []))"
      unfolding p by blast
  qed
  show "(state (runner s) = StateStarting \<longrightarrow> st_Error (Status (runner s)) = [])
     \<and> ((\<forall>evs p. Handshake evs \<in> set as \<longrightarrow> await_port scan evs \<noteq> Inr p)
          \<longrightarrow> st_Port (Status (runner s)) = 0)
     \<and> st_Port (Status (Stop (runner s))) = st_Port (Status (runner s))
     \<and> st_Error (Status (Stop (runner s))) = st_Error (Status (runner s))
     \<and> (\<forall>r'. Start_lock (runner s) = Some r' \<longrightarrow>
           st_Error (Status r') = [] \<and> st_Port (Status r') = st_Port (Status (runner s)))
     \<and> (\<forall>as1 evs as2 p.
           as = as1 @ Handshake evs # as2 \<and> await_port scan evs = Inr p
           \<and> (\<forall>evs' q. Handshake evs' \<in> set as2 \<longrightarrow> await_port scan evs' \<noteq> Inr q)
           \<longrightarrow> st_Port (Status (runner s)) = p)
     \<and> (state (runner s) = StateFailed \<longrightarrow> err (runner s) \<noteq> None)
     \<and> (st_Error (Status (runner s)) \<noteq> [] \<longrightarrow>
           (\<exists>as1 as2 s1. as = as1 @ as2 \<and> exec scan as1 (initial m base) = Some s1
              \<and> state (runner s1) = StateFailed
              \<and> st_Error (Status (runner s1)) = st_Error (Status (runner s))))
     \<and> (\<forall>a s'. step scan a s = Some s' \<longrightarrow>
           (st_Port (Status (runner s')) = st_Port (Status (runner s))
            \<or> (\<exists>evs. a = Handshake evs \<and> await_port scan evs = Inr (st_Port (Status (runner s')))))
           \<and> (st_Error (Status (runner s')) = st_Error (Status (runner s))
              \<or> state (runner s') = StateFailed
              \<or> (a = CallStart \<and> state (runner s') = StateStarting
                  \<and> st_Error (Status (runner s')) = [])))"
    by (intro conjI) (fact a, fact b, fact c1, fact c2, fact d, fact f, fact g, fact h, fact i)
qed

theorem status_snapshot_witness:
  "(\<exists>s. exec Sscanf_port [CallStart, Spawn Started, Handshake [Line ''listening'', Timer15s], CallStart]
          (initial stub_manifest ''/srv'') = Some s
       \<and> state (runner s) = StateStarting
       \<and> st_Error (Status (runner s)) = [] \<and> st_Port (Status (runner s)) = 0)
   \<and> (\<exists>s. exec Sscanf_port
          [CallStart, Spawn Started, Handshake [Line ''AGENT_PORT=45001''], Dial (Inr 7),
           ProcessExit None, CallStop, CallStart, Spawn Started, Handshake [Timer15s]]
          (initial stub_manifest ''/srv'') = Some s
       \<and> state (runner s) = StateFailed
       \<and> st_Port (Status (runner s)) = 45001 \<and> err (runner s) \<noteq> None)"
proof -
  let ?as = "[CallStart, Spawn Started, Handshake [Line ''listening'', Timer15s], CallStart]"
  obtain s where s: "exec Sscanf_port ?as (initial stub_manifest ''/srv'') = Some s"
    and r: "state (runner s) = StateStarting"
    by (simp add: run_eval)
  have h: "\<forall>evs p. Handshake evs \<in> set ?as \<longrightarrow> await_port Sscanf_port evs \<noteq> Inr p"
    by (auto simp: HasPrefix_def MaxScanTokenSize_def dropCR_def)
  from status_snapshot [of Sscanf_port ?as stub_manifest "''/srv''" s] s r h
  have "st_Error (Status (runner s)) = [] \<and> st_Port (Status (runner s)) = 0" by blast
  with s r have 1: "\<exists>s. exec Sscanf_port ?as (initial stub_manifest ''/srv'') = Some s
       \<and> state (runner s) = StateStarting
       \<and> st_Error (Status (runner s)) = [] \<and> st_Port (Status (runner s)) = 0"
    by blast
  let ?as1 = "[CallStart, Spawn Started]"
  let ?as2 = "[Dial (Inr 7), ProcessExit None, CallStop, CallStart, Spawn Started, Handshake [Timer15s]]"
  let ?bs = "?as1 @ Handshake [Line ''AGENT_PORT=45001''] # ?as2"
  obtain t where t: "exec Sscanf_port ?bs (initial stub_manifest ''/srv'') = Some t"
    and f: "state (runner t) = StateFailed"
    by (simp add: run_eval Sscanf_port_45001)
  have p: "await_port Sscanf_port [Line ''AGENT_PORT=45001''] = Inr 45001"
    by (simp add: HasPrefix_def MaxScanTokenSize_def dropCR_def Sscanf_port_45001)
  have n: "\<forall>evs' q. Handshake evs' \<in> set ?as2 \<longrightarrow> await_port Sscanf_port evs' \<noteq> Inr q"
    by auto
  from status_snapshot [of Sscanf_port ?bs stub_manifest "''/srv''" t] t f p n
  have "st_Port (Status (runner t)) = 45001 \<and> err (runner t) \<noteq> None" by blast
  with t f have 2: "\<exists>s. exec Sscanf_port
          [CallStart, Spawn Started, Handshake [Line ''AGENT_PORT=45001''], Dial (Inr 7),
           ProcessExit None, CallStop, CallStart, Spawn Started, Handshake [Timer15s]]
          (initial stub_manifest ''/srv'') = Some s
       \<and> state (runner s) = StateFailed
       \<and> st_Port (Status (runner s)) = 45001 \<and> err (runner s) \<noteq> None"
    by auto
  from 1 2 show ?thesis by (intro conjI)
qed

text \<open>The claim as it stands fails: a runner that failed after its handshake and was then
  stopped shows its error and its port in state Stopped, and after a restart it shows
  the old port in state Starting.\<close>

theorem stopped_snapshot_keeps_error_and_port:
  "map_option (Status \<circ> runner)
     (exec Sscanf_port
        [CallStart, Spawn Started, Handshake [Line ''AGENT_PORT=45001''], Dial (Inr 7),
         ProcessExit None, CallStop]
        (initial stub_manifest ''/srv''))
     = Some \<lparr>st_Name = ''s1'', st_State = ''stopped'', st_Skills = [''echo''], st_Port = 45001,
             st_Error = ''process exited unexpectedly with code 0''\<rparr>
   \<and> map_option (Status \<circ> runner)
       (exec Sscanf_port
          [CallStart, Spawn Started, Handshake [Line ''AGENT_PORT=45001''], Dial (Inr 7),
           ProcessExit None, CallStop, CallStart]
          (initial stub_manifest ''/srv''))
     = Some \<lparr>st_Name = ''s1'', st_State = ''starting'', st_Skills = [''echo''], st_Port = 45001,
             st_Error = []\<rparr>"
  by (simp add: run_eval Sscanf_port_45001)

end
